theory Spec2Isabelle
  imports Complex_Main "HOL-Library.Word" "HOL-Library.Log_Nat"
begin

section \<open>The C type \<open>double\<close>: IEEE 754 binary64, round to nearest, ties to even\<close>

text \<open>
  \<open>GetTimeSinceProcessStart\<close> returns a \<open>double\<close> and computes it with conversions from
  integers, one division and one subtraction (one addition on the Apple branch). On the three
  platforms the header supports, \<open>double\<close> is the IEEE 754 binary64 format and the default
  rounding mode is round-to-nearest, ties-to-even. A value of the type is a finite number
  (kept as the rational it denotes), the negative zero, an infinity or a NaN (one NaN stands
  for all payloads). \<open>Finite 0\<close> is the positive zero, the literal \<open>0.0\<close>.
\<close>

datatype double = Finite rat | NegZero | PosInf | NegInf | NaN

text \<open>The exponent of a positive rational: \<open>2 powi ilog2 a \<le> a < 2 powi (ilog2 a + 1)\<close>.\<close>

definition ilog2 :: "rat \<Rightarrow> int" where
  "ilog2 a = (if 1 \<le> a then bitlen \<lfloor>a\<rfloor> - 1 else - bitlen (\<lceil>1 / a\<rceil> - 1))"

definition round_half_even :: "rat \<Rightarrow> int" where
  "round_half_even x =
     (let n = \<lfloor>x\<rfloor>; r = x - of_int n in
      if r < 1 / 2 then n
      else if 1 / 2 < r then n + 1
      else if even n then n else n + 1)"

text \<open>
  Rounding of a magnitude to 53 significant bits. The exponent is bounded below by the
  smallest normal exponent \<open>-1022\<close>, so that magnitudes under \<open>2 powi (-1022)\<close> land on
  the subnormal grid of step \<open>2 powi (-1074)\<close>. It is not bounded above: overflow is decided
  by \<open>round_double\<close> on the rounded magnitude, as the standard says.
\<close>

definition expo :: "rat \<Rightarrow> int" where
  "expo a = max (ilog2 a) (- 1022)"

definition ulp :: "rat \<Rightarrow> rat" where
  "ulp a = 2 powi (expo a - 52)"

definition round_mag :: "rat \<Rightarrow> rat" where
  "round_mag a = of_int (round_half_even (a / ulp a)) * ulp a"

definition round_double :: "rat \<Rightarrow> double" where
  "round_double r =
     (let v = round_mag \<bar>r\<bar> in
      if 2 ^ 1024 \<le> v then (if r < 0 then NegInf else PosInf)
      else if v = 0 then (if r < 0 then NegZero else Finite 0)
      else Finite (if r < 0 then - v else v))"

fun is_nan :: "double \<Rightarrow> bool" where
  "is_nan NaN = True"
| "is_nan _ = False"

fun is_finite :: "double \<Rightarrow> bool" where
  "is_finite (Finite q) = True"
| "is_finite NegZero = True"
| "is_finite _ = False"

fun sign_bit :: "double \<Rightarrow> bool" where
  "sign_bit (Finite q) = (q < 0)"
| "sign_bit NegZero = True"
| "sign_bit NegInf = True"
| "sign_bit _ = False"

fun valof :: "double \<Rightarrow> rat" where
  "valof (Finite q) = q"
| "valof _ = 0"

text \<open>The values a \<open>double\<close> variable can hold: a finite one is a fixed point of rounding.\<close>

fun is_double :: "double \<Rightarrow> bool" where
  "is_double (Finite q) = (round_double q = Finite q)"
| "is_double _ = True"

definition signed_inf :: "bool \<Rightarrow> double" where
  "signed_inf neg = (if neg then NegInf else PosInf)"

definition signed_zero :: "bool \<Rightarrow> double" where
  "signed_zero neg = (if neg then NegZero else Finite 0)"

fun double_neg :: "double \<Rightarrow> double" where
  "double_neg (Finite q) = (if q = 0 then NegZero else Finite (- q))"
| "double_neg NegZero = Finite 0"
| "double_neg PosInf = NegInf"
| "double_neg NegInf = PosInf"
| "double_neg NaN = NaN"

definition double_add :: "double \<Rightarrow> double \<Rightarrow> double" where
  "double_add a b =
     (if is_nan a \<or> is_nan b then NaN
      else if \<not> is_finite a \<and> \<not> is_finite b \<and> sign_bit a \<noteq> sign_bit b then NaN
      else if \<not> is_finite a then a
      else if \<not> is_finite b then b
      else (let r = valof a + valof b in
            if r = 0 then signed_zero (sign_bit a \<and> sign_bit b)
            else round_double r))"

definition double_sub :: "double \<Rightarrow> double \<Rightarrow> double" where
  "double_sub a b = double_add a (double_neg b)"

definition double_div :: "double \<Rightarrow> double \<Rightarrow> double" where
  "double_div a b =
     (if is_nan a \<or> is_nan b then NaN
      else if \<not> is_finite a \<and> \<not> is_finite b then NaN
      else if valof a = 0 \<and> is_finite a \<and> valof b = 0 \<and> is_finite b then NaN
      else if \<not> is_finite a \<or> valof b = 0 \<and> is_finite b
        then signed_inf (sign_bit a \<noteq> sign_bit b)
      else if \<not> is_finite b \<or> valof a = 0 then signed_zero (sign_bit a \<noteq> sign_bit b)
      else round_double (valof a / valof b))"

text \<open>
  The smallest positive \<open>double\<close>. Every finite \<open>double\<close> is a whole multiple of it.
\<close>

definition min_subnormal :: rat where
  "min_subnormal = 2 powi (- 1074)"

definition on_grid :: "rat \<Rightarrow> bool" where
  "on_grid q = (q / min_subnormal \<in> \<int>)"

text \<open>The comparison operators of C: every comparison with a NaN is false.\<close>

definition double_le :: "double \<Rightarrow> double \<Rightarrow> bool" where
  "double_le a b =
     (\<not> is_nan a \<and> \<not> is_nan b \<and>
      (a = NegInf \<or> b = PosInf \<or> is_finite a \<and> is_finite b \<and> valof a \<le> valof b))"

definition double_lt :: "double \<Rightarrow> double \<Rightarrow> bool" where
  "double_lt a b =
     (\<not> is_nan a \<and> \<not> is_nan b \<and>
      (a = NegInf \<and> b \<noteq> NegInf \<or> b = PosInf \<and> a \<noteq> PosInf
       \<or> is_finite a \<and> is_finite b \<and> valof a < valof b))"

text \<open>Integer to \<open>double\<close> conversions, \<open>(double)x\<close>: the nearest \<open>double\<close>.\<close>

definition double_of_uint64 :: "64 word \<Rightarrow> double" where
  "double_of_uint64 w = round_double (of_nat (unat w))"

definition double_of_int64 :: "64 word \<Rightarrow> double" where
  "double_of_int64 w = round_double (of_int (sint w))"

definition double_of_int32 :: "32 word \<Rightarrow> double" where
  "double_of_int32 w = round_double (of_int (sint w))"


section \<open>The build: which macros the including translation unit defines\<close>

text \<open>
  The header is configured by macros only. A build is the set of macro names defined when
  the header is included with \<open>GTSPS_IMPLEMENTATION\<close>; the \<open>#if\<close> chain of the function body
  picks the first branch whose macro is defined.
\<close>

type_synonym build = "string set"

datatype platform = Win32 | Linux | Apple | Unsupported

definition target :: "build \<Rightarrow> platform" where
  "target b =
     (if ''_WIN32'' \<in> b then Win32
      else if ''linux'' \<in> b \<or> ''__linux__'' \<in> b \<or> ''__LINUX__'' \<in> b then Linux
      else if ''__APPLE__'' \<in> b \<or> ''MACOSX'' \<in> b \<or> ''__MACOSX__'' \<in> b then Apple
      else Unsupported)"


section \<open>What the function does to the outside: calls and diagnostics\<close>

text \<open>A \<open>FILE*\<close> is known by its identity only.\<close>

type_synonym handle = nat

datatype event =
    Call_GetCurrentProcess
  | Call_GetProcessTimes
  | Call_GetSystemTimeAsFileTime
  | Call_fopen string "handle option"
  | Call_fscanf handle
  | Call_fclose handle
  | Call_sysconf
  | Call_getpid
  | Call_proc_pidinfo
  | Call_gettimeofday
  | Call_fprintf_stderr string
  | Call_custom_log string

text \<open>
  \<open>GTSPS_LOG_ERROR(str)\<close>: nothing under \<open>GTSPS_DONT_LOG_ERRORS\<close>, else
  \<open>fprintf(stderr, str)\<close> unless the including file defined \<open>GTSPS_LOG_ERROR\<close> itself.
\<close>

definition GTSPS_LOG_ERROR :: "build \<Rightarrow> string \<Rightarrow> event list" where
  "GTSPS_LOG_ERROR b str =
     (if ''GTSPS_DONT_LOG_ERRORS'' \<in> b then []
      else if ''GTSPS_LOG_ERROR'' \<notin> b then [Call_fprintf_stderr str]
      else [Call_custom_log str])"

definition msg_GetProcessTimes :: string where
  "msg_GetProcessTimes = ''Error: Failed to call GetProcessTimes'' @ [CHR 0x0A]"

definition msg_decode_stat :: string where
  "msg_decode_stat = ''Error: Failed decoding /proc/self/stat.'' @ [CHR 0x0A]"

definition msg_open_stat :: string where
  "msg_open_stat = ''Error: Failed to open /proc/self/stat.'' @ [CHR 0x0A]"

definition msg_decode_uptime :: string where
  "msg_decode_uptime = ''Error: Failed decoding /proc/uptime.'' @ [CHR 0x0A]"

definition msg_open_uptime :: string where
  "msg_open_uptime = ''Error: Failed to open /proc/uptime.'' @ [CHR 0x0A]"

definition msg_proc_pidinfo :: string where
  "msg_proc_pidinfo = ''Error: proc_pidinfo failed''"


section \<open>What the operating system answers\<close>

text \<open>
  The function takes no argument: its inputs are the answers of the calls it makes. Each
  record holds, for one platform, the answer every call of that branch would get: the
  status a call returns and the values it stores. Reading the text of \<open>/proc/self/stat\<close> and
  \<open>/proc/uptime\<close> is the work of \<open>fscanf\<close>, of which the function sees the count of
  decoded fields and the decoded value. Integer types have the widths of the 64-bit ABIs of
  the three systems: \<open>int\<close> and \<open>BOOL\<close> have 32 bits, \<open>long\<close> and \<open>time_t\<close> have 64.
\<close>

record FILETIME =
  dwLowDateTime :: "32 word"
  dwHighDateTime :: "32 word"

text \<open>\<open>ULARGE_INTEGER\<close>: \<open>QuadPart\<close> read after \<open>LowPart\<close> and \<open>HighPart\<close> were written.\<close>

definition QuadPart :: "FILETIME \<Rightarrow> 64 word" where
  "QuadPart ft = word_cat (dwHighDateTime ft) (dwLowDateTime ft)"

record win32_os =
  GetProcessTimes_ret :: "32 word"  \<comment> \<open>\<open>BOOL\<close>: zero is failure\<close>
  creationTime :: FILETIME
  systemTime :: FILETIME  \<comment> \<open>\<open>GetSystemTimeAsFileTime\<close> returns \<open>void\<close>\<close>

record linux_os =
  fopen_stat :: "handle option"  \<comment> \<open>\<open>None\<close> is \<open>NULL\<close>\<close>
  fscanf_stat_ret :: "32 word"  \<comment> \<open>\<open>int decoded\<close>\<close>
  fscanf_stat_value :: "64 word"  \<comment> \<open>\<open>startTime\<close> after the call\<close>
  sysconf_CLK_TCK :: "64 word"  \<comment> \<open>\<open>long\<close>\<close>
  fopen_uptime :: "handle option"
  fscanf_uptime_ret :: "32 word"
  fscanf_uptime_value :: double  \<comment> \<open>\<open>kernelUpTimeInSeconds\<close> after the call\<close>

record timeval =
  tv_sec :: "64 word"  \<comment> \<open>\<open>time_t\<close>, a \<open>long\<close>\<close>
  tv_usec :: "32 word"  \<comment> \<open>\<open>suseconds_t\<close>, an \<open>int\<close> on Darwin\<close>

record apple_os =
  proc_pidinfo_ret :: "32 word"  \<comment> \<open>\<open>int\<close>\<close>
  pbi_start_tvsec :: "64 word"  \<comment> \<open>\<open>uint64_t\<close> fields of \<open>task_info\<close> after the call\<close>
  pbi_start_tvusec :: "64 word"
  gettimeofday_ret :: "32 word"  \<comment> \<open>\<open>int\<close>, which the function does not read\<close>
  gettimeofday_tv :: timeval  \<comment> \<open>\<open>currentTime\<close> after the call\<close>

record os =
  win32 :: win32_os
  linux :: linux_os
  apple :: apple_os


section \<open>GetTimeSinceProcessStart\<close>

text \<open>
  The two times each branch samples, under the names of the source's local variables. On
  Windows both are 100 ns tick counts divided by \<open>10000000.0\<close>; on Linux the start time
  is a tick count divided by \<open>sysconf(_SC_CLK_TCK)\<close>, converted from \<open>long\<close> without a
  check, and the current time is \<open>kernelUpTimeInSeconds\<close>, the number \<open>fscanf\<close> stored; on
  Apple systems both are \<open>struct timeval\<close>, the start time copied from the unsigned 64-bit
  fields of \<open>task_info\<close>.
\<close>

definition win32_startTime :: "win32_os \<Rightarrow> double" where
  "win32_startTime w = double_div (double_of_uint64 (QuadPart (creationTime w))) (Finite 10000000)"

definition win32_currentTime :: "win32_os \<Rightarrow> double" where
  "win32_currentTime w = double_div (double_of_uint64 (QuadPart (systemTime w))) (Finite 10000000)"

definition processStartTimeInSeconds :: "linux_os \<Rightarrow> double" where
  "processStartTimeInSeconds l =
     (let startTime = fscanf_stat_value l;
          clockTicksPerSecond = double_of_int64 (sysconf_CLK_TCK l)
      in double_div (double_of_uint64 startTime) clockTicksPerSecond)"

definition apple_startTime :: "apple_os \<Rightarrow> timeval" where
  "apple_startTime a = \<lparr>tv_sec = pbi_start_tvsec a, tv_usec = ucast (pbi_start_tvusec a)\<rparr>"

text \<open>
  The last statement of the Apple branch: seconds and microseconds are subtracted apart,
  in \<open>long\<close> and in \<open>int\<close> (the model wraps where C leaves overflow undefined), and added
  as \<open>double\<close>.
\<close>

definition timeval_elapsed :: "timeval \<Rightarrow> timeval \<Rightarrow> double" where
  "timeval_elapsed currentTime startTime =
     double_add
       (double_of_int64 (tv_sec currentTime - tv_sec startTime))
       (double_div (double_of_int32 (tv_usec currentTime - tv_usec startTime))
          (Finite 1000000))"

text \<open>
  Each branch returns the value of the function and the calls it made, in order. A
  \<open>return 0.0\<close> in the middle of the source is a branch that ends there.
\<close>

definition GetTimeSinceProcessStart_win32 :: "build \<Rightarrow> win32_os \<Rightarrow> double \<times> event list" where
  "GetTimeSinceProcessStart_win32 b w =
     (if GetProcessTimes_ret w = 0
      then (Finite 0,
            [Call_GetCurrentProcess, Call_GetProcessTimes] @ GTSPS_LOG_ERROR b msg_GetProcessTimes)
      else
        let startTime = win32_startTime w;
            currentTime = win32_currentTime w;
            timeInSeconds = double_sub currentTime startTime
        in (timeInSeconds,
            [Call_GetCurrentProcess, Call_GetProcessTimes, Call_GetSystemTimeAsFileTime]))"

definition proc_self_stat :: string where
  "proc_self_stat = ''/proc/self/stat''"

definition proc_uptime :: string where
  "proc_uptime = ''/proc/uptime''"

definition GetTimeSinceProcessStart_linux :: "build \<Rightarrow> linux_os \<Rightarrow> double \<times> event list" where
  "GetTimeSinceProcessStart_linux b l =
     (case fopen_stat l of
        None \<Rightarrow>
          (Finite 0, [Call_fopen proc_self_stat None] @ GTSPS_LOG_ERROR b msg_open_stat)
      | Some file \<Rightarrow>
          let t1 = [Call_fopen proc_self_stat (Some file), Call_fscanf file, Call_fclose file] in
          if fscanf_stat_ret l \<noteq> 1
          then (Finite 0, t1 @ GTSPS_LOG_ERROR b msg_decode_stat)
          else
            let t2 = t1 @ [Call_sysconf] in
            (case fopen_uptime l of
               None \<Rightarrow>
                 (Finite 0,
                  t2 @ [Call_fopen proc_uptime None] @ GTSPS_LOG_ERROR b msg_open_uptime)
             | Some file' \<Rightarrow>
                 let t3 = t2 @ [Call_fopen proc_uptime (Some file'), Call_fscanf file',
                                Call_fclose file'] in
                 if fscanf_uptime_ret l \<noteq> 1
                 then (Finite 0, t3 @ GTSPS_LOG_ERROR b msg_decode_uptime)
                 else
                   let kernelUpTimeInSeconds = fscanf_uptime_value l;
                       timeInSeconds =
                         double_sub kernelUpTimeInSeconds (processStartTimeInSeconds l)
                   in (timeInSeconds, t3)))"

definition GetTimeSinceProcessStart_apple :: "build \<Rightarrow> apple_os \<Rightarrow> double \<times> event list" where
  "GetTimeSinceProcessStart_apple b a =
     (if sint (proc_pidinfo_ret a) \<le> 0
      then (Finite 0, [Call_getpid, Call_proc_pidinfo] @ GTSPS_LOG_ERROR b msg_proc_pidinfo)
      else
        let startTime = apple_startTime a;
            currentTime = gettimeofday_tv a;
            timeInSeconds = timeval_elapsed currentTime startTime
        in (timeInSeconds, [Call_getpid, Call_proc_pidinfo, Call_gettimeofday]))"

definition GetTimeSinceProcessStart :: "build \<Rightarrow> os \<Rightarrow> double \<times> event list" where
  "GetTimeSinceProcessStart b s =
     (case target b of
        Win32 \<Rightarrow> GetTimeSinceProcessStart_win32 b (win32 s)
      | Linux \<Rightarrow> GetTimeSinceProcessStart_linux b (linux s)
      | Apple \<Rightarrow> GetTimeSinceProcessStart_apple b (apple s)
      | Unsupported \<Rightarrow> (Finite 0, []))"


section \<open>Reading a run\<close>

text \<open>The diagnostics a run emitted, through either sink, in order.\<close>

fun diagnostics :: "event list \<Rightarrow> string list" where
  "diagnostics [] = []"
| "diagnostics (Call_fprintf_stderr m # es) = m # diagnostics es"
| "diagnostics (Call_custom_log m # es) = m # diagnostics es"
| "diagnostics (_ # es) = diagnostics es"

text \<open>The handles a run holds open after its calls, given those held before.\<close>

fun held :: "event list \<Rightarrow> handle list \<Rightarrow> handle list" where
  "held [] hs = hs"
| "held (Call_fopen p (Some h) # es) hs = held es (h # hs)"
| "held (Call_fclose h # es) hs = held es (remove1 h hs)"
| "held (_ # es) hs = held es hs"

text \<open>The calls that sample the current time: one per platform.\<close>

fun current_time_probe :: "event \<Rightarrow> bool" where
  "current_time_probe Call_GetSystemTimeAsFileTime = True"
| "current_time_probe (Call_fopen p h) = (p = proc_uptime)"
| "current_time_probe Call_gettimeofday = True"
| "current_time_probe _ = False"

text \<open>
  When the code takes the creation-time probe as failed, and when the current-time probe
  failed by the convention of the call that makes it. \<open>GetSystemTimeAsFileTime\<close> has no
  failure status; \<open>gettimeofday\<close> reports failure with a nonzero status.
\<close>

fun creation_probe_failed :: "platform \<Rightarrow> os \<Rightarrow> bool" where
  "creation_probe_failed Win32 s = (GetProcessTimes_ret (win32 s) = 0)"
| "creation_probe_failed Linux s =
     (fopen_stat (linux s) = None \<or> fscanf_stat_ret (linux s) \<noteq> 1)"
| "creation_probe_failed Apple s = (sint (proc_pidinfo_ret (apple s)) \<le> 0)"
| "creation_probe_failed Unsupported s = False"

fun current_probe_failed :: "platform \<Rightarrow> os \<Rightarrow> bool" where
  "current_probe_failed Win32 s = False"
| "current_probe_failed Linux s =
     (fopen_uptime (linux s) = None \<or> fscanf_uptime_ret (linux s) \<noteq> 1)"
| "current_probe_failed Apple s = (gettimeofday_ret (apple s) \<noteq> 0)"
| "current_probe_failed Unsupported s = False"

definition logging :: "build \<Rightarrow> bool" where
  "logging b = (''GTSPS_DONT_LOG_ERRORS'' \<notin> b)"

text \<open>The diagnostic of a failed creation-time probe, and of a failed \<open>/proc/uptime\<close> probe.\<close>

fun creation_diag :: "platform \<Rightarrow> os \<Rightarrow> string" where
  "creation_diag Win32 s = msg_GetProcessTimes"
| "creation_diag Linux s =
     (if fopen_stat (linux s) = None then msg_open_stat else msg_decode_stat)"
| "creation_diag Apple s = msg_proc_pidinfo"
| "creation_diag Unsupported s = []"

definition uptime_diag :: "os \<Rightarrow> string" where
  "uptime_diag s =
     (if fopen_uptime (linux s) = None then msg_open_uptime else msg_decode_uptime)"

text \<open>The diagnostic of the first probe that failed.\<close>

definition failure_diag :: "platform \<Rightarrow> os \<Rightarrow> string" where
  "failure_diag p s = (if creation_probe_failed p s then creation_diag p s else uptime_diag s)"


section \<open>The order of the two sampled times\<close>

text \<open>
  A \<open>struct timeval\<close> is a time when its microseconds lie in \<open>[0, 1000000)\<close>; two of them
  compare by seconds first. The difference of the seconds of two of them fits a \<open>long\<close>
  when it is in \<open>[-2^63, 2^63)\<close>: outside, the subtraction of the source is undefined in C.
\<close>

definition usec_in_range :: "timeval \<Rightarrow> bool" where
  "usec_in_range t = (0 \<le> sint (tv_usec t) \<and> sint (tv_usec t) < 1000000)"

definition sec_diff_fits :: "timeval \<Rightarrow> timeval \<Rightarrow> bool" where
  "sec_diff_fits c s =
     (- (2 ^ 63) \<le> sint (tv_sec c) - sint (tv_sec s) \<and> sint (tv_sec c) - sint (tv_sec s) < 2 ^ 63)"

definition timeval_le :: "timeval \<Rightarrow> timeval \<Rightarrow> bool" where
  "timeval_le s c =
     (sint (tv_sec s) < sint (tv_sec c)
      \<or> sint (tv_sec s) = sint (tv_sec c) \<and> sint (tv_usec s) \<le> sint (tv_usec c))"

definition timeval_lt :: "timeval \<Rightarrow> timeval \<Rightarrow> bool" where
  "timeval_lt s c =
     (sint (tv_sec s) < sint (tv_sec c)
      \<or> sint (tv_sec s) = sint (tv_sec c) \<and> sint (tv_usec s) < sint (tv_usec c))"

text \<open>
  The sampled current time is not before the sampled creation time. On Windows: as tick
  counts, or as the two \<open>double\<close> values the code subtracts. On Linux: as the two \<open>double\<close>
  values the code subtracts, one of them at least being a finite number (the difference of
  two equal infinities is a NaN). On Apple systems: as two well-formed \<open>timeval\<close>s whose
  seconds can be subtracted.
\<close>

fun current_not_before_creation :: "platform \<Rightarrow> os \<Rightarrow> bool" where
  "current_not_before_creation Win32 s =
     (unat (QuadPart (creationTime (win32 s))) \<le> unat (QuadPart (systemTime (win32 s)))
      \<or> double_le (win32_startTime (win32 s)) (win32_currentTime (win32 s)))"
| "current_not_before_creation Linux s =
     ((is_finite (fscanf_uptime_value (linux s)) \<or>
       is_finite (processStartTimeInSeconds (linux s))) \<and>
      double_le (processStartTimeInSeconds (linux s)) (fscanf_uptime_value (linux s)))"
| "current_not_before_creation Apple s =
     (usec_in_range (apple_startTime (apple s)) \<and> usec_in_range (gettimeofday_tv (apple s)) \<and>
      sec_diff_fits (gettimeofday_tv (apple s)) (apple_startTime (apple s)) \<and>
      timeval_le (apple_startTime (apple s)) (gettimeofday_tv (apple s)))"
| "current_not_before_creation Unsupported s = False"

text \<open>
  The sampled current time is before the sampled creation time. On Windows: as tick counts,
  or as the two \<open>double\<close> values the code subtracts. On Linux: as the two \<open>double\<close> values
  the code subtracts, the uptime being any value of the type \<open>double\<close>. On Apple systems: as
  two well-formed \<open>timeval\<close>s whose seconds can be subtracted.
\<close>

fun current_before_creation :: "platform \<Rightarrow> os \<Rightarrow> bool" where
  "current_before_creation Win32 s =
     (unat (QuadPart (systemTime (win32 s))) < unat (QuadPart (creationTime (win32 s)))
      \<or> double_lt (win32_currentTime (win32 s)) (win32_startTime (win32 s)))"
| "current_before_creation Linux s =
     (is_double (fscanf_uptime_value (linux s)) \<and>
      double_lt (fscanf_uptime_value (linux s)) (processStartTimeInSeconds (linux s)))"
| "current_before_creation Apple s =
     (usec_in_range (apple_startTime (apple s)) \<and> usec_in_range (gettimeofday_tv (apple s)) \<and>
      sec_diff_fits (gettimeofday_tv (apple s)) (apple_startTime (apple s)) \<and>
      timeval_lt (gettimeofday_tv (apple s)) (apple_startTime (apple s)))"
| "current_before_creation Unsupported s = False"

text \<open>The seconds the Windows branch computes from a tick count, as a number.\<close>

definition win32_seconds :: "64 word \<Rightarrow> rat" where
  "win32_seconds x = round_mag (round_mag (of_nat (unat x)) / 10000000)"

text \<open>The difference each branch computes when both probes succeeded.\<close>

fun sampled_difference :: "platform \<Rightarrow> os \<Rightarrow> double" where
  "sampled_difference Win32 s =
     double_sub (win32_currentTime (win32 s)) (win32_startTime (win32 s))"
| "sampled_difference Linux s =
     double_sub (fscanf_uptime_value (linux s)) (processStartTimeInSeconds (linux s))"
| "sampled_difference Apple s =
     timeval_elapsed (gettimeofday_tv (apple s)) (apple_startTime (apple s))"
| "sampled_difference Unsupported s = Finite 0"

text \<open>The microseconds term of the Apple branch, for a difference \<open>d\<close> of microseconds.\<close>

definition usec_quotient :: "int \<Rightarrow> double" where
  "usec_quotient d = double_div (Finite (of_int d)) (Finite 1000000)"


section \<open>Example environments\<close>

text \<open>A system on which every call fails, and one working system per platform.\<close>

definition failing_os :: os where
  "failing_os =
     \<lparr>win32 = \<lparr>GetProcessTimes_ret = 0,
                creationTime = \<lparr>dwLowDateTime = 0, dwHighDateTime = 0\<rparr>,
                systemTime = \<lparr>dwLowDateTime = 0, dwHighDateTime = 0\<rparr>\<rparr>,
      linux = \<lparr>fopen_stat = None, fscanf_stat_ret = - 1, fscanf_stat_value = 0,
                sysconf_CLK_TCK = - 1, fopen_uptime = None, fscanf_uptime_ret = - 1,
                fscanf_uptime_value = Finite 0\<rparr>,
      apple = \<lparr>proc_pidinfo_ret = 0, pbi_start_tvsec = 0, pbi_start_tvusec = 0,
                gettimeofday_ret = - 1, gettimeofday_tv = \<lparr>tv_sec = 0, tv_usec = 0\<rparr>\<rparr>\<rparr>"

definition working_win32 :: win32_os where
  "working_win32 =
     \<lparr>GetProcessTimes_ret = 1,
      creationTime = \<lparr>dwLowDateTime = 100000000, dwHighDateTime = 0\<rparr>,
      systemTime = \<lparr>dwLowDateTime = 150000000, dwHighDateTime = 0\<rparr>\<rparr>"

definition working_linux :: linux_os where
  "working_linux =
     \<lparr>fopen_stat = Some 3, fscanf_stat_ret = 1, fscanf_stat_value = 500,
      sysconf_CLK_TCK = 100, fopen_uptime = Some 3, fscanf_uptime_ret = 1,
      fscanf_uptime_value = Finite 10\<rparr>"

definition working_apple :: apple_os where
  "working_apple =
     \<lparr>proc_pidinfo_ret = 136, pbi_start_tvsec = 1700000000, pbi_start_tvusec = 750000,
      gettimeofday_ret = 0,
      gettimeofday_tv = \<lparr>tv_sec = 1700000005, tv_usec = 250000\<rparr>\<rparr>"


section \<open>Rounding to nearest: exponent, monotonicity, exact values\<close>

lemma ilog2_bounds:
  assumes "0 < a"
  shows "2 powi ilog2 a \<le> a \<and> a < 2 powi (ilog2 a + 1)"
proof (cases "1 \<le> a")
  case True
  define n where "n = \<lfloor>a\<rfloor>"
  have n1: "1 \<le> n" using True by (simp add: n_def le_floor_iff)
  then have npos: "0 < n" by simp
  have bl: "1 \<le> bitlen n" using npos bitlen_eq_zero_iff [of n] bitlen_nonneg [of n] by linarith
  from bitlen_bounds [OF npos]
  have lo: "2 ^ nat (bitlen n - 1) \<le> n" and hi: "n < 2 ^ nat (bitlen n)" by simp_all
  have il: "ilog2 a = bitlen n - 1" using True by (simp add: ilog2_def n_def)
  have "(2::rat) powi (bitlen n - 1) = 2 ^ nat (bitlen n - 1)"
    using bl by (simp add: power_int_nonneg_exp)
  also have "\<dots> = of_int (2 ^ nat (bitlen n - 1))" by simp
  also have "\<dots> \<le> of_int n" using lo by (simp only: of_int_le_iff)
  also have "\<dots> \<le> a" by (simp add: n_def)
  finally have A: "2 powi ilog2 a \<le> a" by (simp add: il)
  have "n + 1 \<le> 2 ^ nat (bitlen n)" using hi by simp
  then have "(of_int (n + 1) :: rat) \<le> of_int (2 ^ nat (bitlen n))" by (simp only: of_int_le_iff)
  moreover have "a < of_int (n + 1)" using floor_correct [of a] by (simp add: n_def)
  ultimately have "a < of_int (2 ^ nat (bitlen n))" by linarith
  also have "\<dots> = 2 powi (bitlen n)" using bl by (simp add: power_int_nonneg_exp)
  finally have B: "a < 2 powi (ilog2 a + 1)" by (simp add: il)
  from A B show ?thesis by simp
next
  case False
  define b where "b = 1 / a"
  define c where "c = \<lceil>b\<rceil> - 1"
  have b1: "1 < b" using False assms by (simp add: b_def)
  have cb: "of_int c < b" "b \<le> of_int c + 1"
    by (simp_all add: c_def) (use le_of_int_ceiling [of b] in linarith)+
  have c1: "1 \<le> c" using b1 by (simp add: c_def less_ceiling_iff)
  then have cpos: "0 < c" by simp
  have bl: "1 \<le> bitlen c" using cpos bitlen_eq_zero_iff [of c] bitlen_nonneg [of c] by linarith
  from bitlen_bounds [OF cpos]
  have lo: "2 ^ nat (bitlen c - 1) \<le> c" and hi: "c < 2 ^ nat (bitlen c)" by simp_all
  have il: "ilog2 a = - bitlen c" using False by (simp add: ilog2_def c_def b_def)
  have "c + 1 \<le> 2 ^ nat (bitlen c)" using hi by simp
  then have "(of_int (c + 1) :: rat) \<le> of_int (2 ^ nat (bitlen c))" by (simp only: of_int_le_iff)
  then have "b \<le> 2 ^ nat (bitlen c)" using cb by simp
  also have "\<dots> = 2 powi bitlen c" using bl by (simp add: power_int_nonneg_exp)
  finally have "b \<le> 2 powi bitlen c" .
  then have "1 / 2 powi bitlen c \<le> 1 / b" using b1 by (simp add: frac_le)
  then have A: "2 powi ilog2 a \<le> a"
    using assms by (simp add: il b_def power_int_minus_divide)
  have "(of_int (2 ^ nat (bitlen c - 1)) :: rat) \<le> of_int c" using lo by (simp only: of_int_le_iff)
  then have "(2::rat) ^ nat (bitlen c - 1) \<le> of_int c" by simp
  then have "2 ^ nat (bitlen c - 1) < b" using cb by linarith
  moreover have "(2::rat) ^ nat (bitlen c - 1) = 2 powi (bitlen c - 1)"
    using bl by (simp add: power_int_nonneg_exp)
  ultimately have "2 powi (bitlen c - 1) < b" by simp
  then have "1 / b < 1 / 2 powi (bitlen c - 1)" by (simp add: frac_less2)
  moreover have "1 / (2::rat) powi (bitlen c - 1) = 2 powi (- bitlen c + 1)"
    by (simp add: power_int_minus_divide [symmetric])
  ultimately have B: "a < 2 powi (ilog2 a + 1)" using assms by (simp add: il b_def)
  from A B show ?thesis by simp
qed

lemma ilog2_unique:
  assumes "2 powi e \<le> a" "a < 2 powi (e + 1)"
  shows "ilog2 a = e"
proof -
  have apos: "0 < a" using assms(1) zero_less_power_int [of "2::rat" e] by linarith
  from ilog2_bounds [OF apos]
  have lo: "2 powi ilog2 a \<le> a" and hi: "a < 2 powi (ilog2 a + 1)" by simp_all
  have "(2::rat) powi e < 2 powi (ilog2 a + 1)" using assms(1) hi by linarith
  then have 1: "e < ilog2 a + 1"
    using power_int_increasing [of "ilog2 a + 1" e "2::rat"] by (cases "e < ilog2 a + 1") auto
  have "(2::rat) powi ilog2 a < 2 powi (e + 1)" using assms(2) lo by linarith
  then have 2: "ilog2 a < e + 1"
    using power_int_increasing [of "e + 1" "ilog2 a" "2::rat"] by (cases "ilog2 a < e + 1") auto
  from 1 2 show ?thesis by simp
qed

lemma ilog2_mono:
  assumes "0 < a" "a \<le> b"
  shows "ilog2 a \<le> ilog2 b"
proof -
  have bpos: "0 < b" using assms by simp
  have "(2::rat) powi ilog2 a < 2 powi (ilog2 b + 1)"
    using ilog2_bounds [OF assms(1)] ilog2_bounds [OF bpos] assms(2) by linarith
  then have "ilog2 a < ilog2 b + 1"
    using power_int_increasing [of "ilog2 b + 1" "ilog2 a" "2::rat"]
    by (cases "ilog2 a < ilog2 b + 1") auto
  then show ?thesis by simp
qed

lemma rhe_of_int: "round_half_even (of_int n) = n"
  by (simp add: round_half_even_def)

lemma rhe_lower: "\<lfloor>x\<rfloor> \<le> round_half_even x"
  by (simp add: round_half_even_def Let_def)

lemma rhe_upper: "round_half_even x \<le> \<lfloor>x\<rfloor> + 1"
  by (simp add: round_half_even_def Let_def)

lemma rhe_mono:
  assumes "x \<le> y"
  shows "round_half_even x \<le> round_half_even y"
proof (cases "\<lfloor>x\<rfloor> = \<lfloor>y\<rfloor>")
  case True
  with assms show ?thesis
    by (auto simp: round_half_even_def Let_def)
next
  case False
  with assms have "\<lfloor>x\<rfloor> < \<lfloor>y\<rfloor>" using floor_mono [of x y] by linarith
  then have "\<lfloor>x\<rfloor> + 1 \<le> \<lfloor>y\<rfloor>" by simp
  with rhe_upper [of x] rhe_lower [of y] show ?thesis by linarith
qed

lemma rhe_le_int: "x \<le> of_int k \<Longrightarrow> round_half_even x \<le> k"
  using rhe_mono [of x "of_int k"] by (simp add: rhe_of_int)

lemma rhe_ge_int: "of_int k \<le> x \<Longrightarrow> k \<le> round_half_even x"
  using rhe_mono [of "of_int k" x] by (simp add: rhe_of_int)

lemma ulp_pos: "0 < ulp a"
  by (simp add: ulp_def)

lemma expo_mono: "0 < a \<Longrightarrow> a \<le> b \<Longrightarrow> expo a \<le> expo b"
  using ilog2_mono [of a b] by (simp add: expo_def)

lemma below_expo:
  assumes "0 < a"
  shows "a < 2 powi (expo a + 1)"
proof -
  have "a < 2 powi (ilog2 a + 1)" using ilog2_bounds [OF assms] by simp
  also have "\<dots> \<le> 2 powi (expo a + 1)"
    by (rule power_int_increasing) (simp_all add: expo_def)
  finally show ?thesis .
qed

lemma above_expo:
  assumes "0 < a" "- 1022 \<le> ilog2 a"
  shows "2 powi expo a \<le> a"
  using ilog2_bounds [OF assms(1)] assms(2) by (simp add: expo_def max_def)

lemma pow_over_ulp: "2 powi (expo a + k) / ulp a = 2 powi (52 + k)"
proof -
  have "(2::rat) powi ((expo a - 52) + (52 + k)) = 2 powi (expo a - 52) * 2 powi (52 + k)"
    by (rule power_int_add) simp
  moreover have "(expo a - 52) + (52 + k) = expo a + k" by simp
  ultimately have "(2::rat) powi (expo a + k) = 2 powi (expo a - 52) * 2 powi (52 + k)"
    by (simp only:)
  then show ?thesis by (simp add: ulp_def)
qed

lemma pow_times_ulp: "2 powi (52 + k) * ulp a = 2 powi (expo a + k)"
proof -
  have "(2::rat) powi ((52 + k) + (expo a - 52)) = 2 powi (52 + k) * 2 powi (expo a - 52)"
    by (rule power_int_add) simp
  moreover have "(52 + k) + (expo a - 52) = expo a + k" by simp
  ultimately show ?thesis by (simp only: ulp_def)
qed

lemma round_mag_nonneg: "0 \<le> a \<Longrightarrow> 0 \<le> round_mag a"
proof -
  assume "0 \<le> a"
  then have "of_int 0 \<le> a / ulp a" using ulp_pos [of a] by simp
  then have "0 \<le> round_half_even (a / ulp a)" by (rule rhe_ge_int)
  then show ?thesis using ulp_pos [of a] by (simp add: round_mag_def)
qed

lemma round_mag_zero: "round_mag 0 = 0"
  by (simp add: round_mag_def rhe_of_int [of 0, simplified])

lemma round_mag_le_pow:
  assumes "0 < a"
  shows "round_mag a \<le> 2 powi (expo a + 1)"
proof -
  have "a / ulp a < 2 powi (expo a + 1) / ulp a"
    using below_expo [OF assms] ulp_pos [of a] by (simp add: divide_strict_right_mono)
  also have "\<dots> = 2 powi (52 + 1)" by (rule pow_over_ulp)
  also have "\<dots> = of_int (2 ^ 53)" by simp
  finally have "round_half_even (a / ulp a) \<le> 2 ^ 53" by (intro rhe_le_int) simp
  then have "(of_int (round_half_even (a / ulp a)) :: rat) \<le> of_int (2 ^ 53)"
    by (simp only: of_int_le_iff)
  then have "round_mag a \<le> of_int (2 ^ 53) * ulp a"
    using ulp_pos [of a] by (simp add: round_mag_def)
  also have "\<dots> = 2 powi (52 + 1) * ulp a" by simp
  also have "\<dots> = 2 powi (expo a + 1)" by (rule pow_times_ulp)
  finally show ?thesis .
qed

lemma round_mag_ge_pow:
  assumes "2 powi expo a \<le> a"
  shows "2 powi expo a \<le> round_mag a"
proof -
  have "2 powi (expo a + 0) / ulp a \<le> a / ulp a"
    using assms ulp_pos [of a] by (simp add: divide_right_mono)
  moreover have "2 powi (expo a + 0) / ulp a = 2 powi (52 + 0)" by (rule pow_over_ulp)
  ultimately have "of_int (2 ^ 52) \<le> a / ulp a" by simp
  then have "2 ^ 52 \<le> round_half_even (a / ulp a)" by (rule rhe_ge_int)
  then have "(of_int (2 ^ 52) :: rat) \<le> of_int (round_half_even (a / ulp a))"
    by (simp only: of_int_le_iff)
  then have "of_int (2 ^ 52) * ulp a \<le> round_mag a"
    using ulp_pos [of a] by (simp add: round_mag_def)
  moreover have "of_int (2 ^ 52) * ulp a = 2 powi (52 + 0) * ulp a" by simp
  moreover have "\<dots> = 2 powi (expo a + 0)" by (rule pow_times_ulp)
  ultimately show ?thesis by simp
qed

lemma round_mag_mono_pos:
  assumes "0 < a" "a \<le> b"
  shows "round_mag a \<le> round_mag b"
proof (cases "expo a = expo b")
  case True
  then have u: "ulp a = ulp b" by (simp add: ulp_def)
  have "a / ulp b \<le> b / ulp b" using assms ulp_pos [of b] by (simp add: divide_right_mono)
  then have "round_half_even (a / ulp b) \<le> round_half_even (b / ulp b)" by (rule rhe_mono)
  then have "(of_int (round_half_even (a / ulp b)) :: rat) \<le> of_int (round_half_even (b / ulp b))"
    by (simp only: of_int_le_iff)
  then show ?thesis using ulp_pos [of b] by (simp add: round_mag_def u)
next
  case False
  have bpos: "0 < b" using assms by simp
  from False expo_mono [OF assms] have lt: "expo a < expo b" by simp
  then have "- 1022 \<le> ilog2 b" by (simp add: expo_def max_def split: if_splits)
  then have "2 powi expo b \<le> b" using above_expo [OF bpos] by simp
  then have "2 powi expo b \<le> round_mag b" by (rule round_mag_ge_pow)
  moreover have "round_mag a \<le> 2 powi (expo a + 1)" using assms(1) by (rule round_mag_le_pow)
  moreover have "(2::rat) powi (expo a + 1) \<le> 2 powi expo b"
    using lt by (intro power_int_increasing) simp_all
  ultimately show ?thesis by linarith
qed

lemma round_mag_mono:
  assumes "0 \<le> a" "a \<le> b"
  shows "round_mag a \<le> round_mag b"
proof (cases "a = 0")
  case True
  then show ?thesis using assms round_mag_nonneg [of b] by (simp add: round_mag_zero)
next
  case False
  then show ?thesis using assms round_mag_mono_pos [of a b] by simp
qed

lemma powi_less_imp_less:
  assumes "(2::rat) powi i \<le> a" "a < 2 powi j"
  shows "i < j"
proof (rule ccontr)
  assume "\<not> i < j"
  then have "(2::rat) powi j \<le> 2 powi i" by (intro power_int_increasing) simp_all
  with assms show False by linarith
qed

lemma round_mag_exact:
  assumes "0 < m" "m < 2 ^ 53" "- 1074 \<le> e"
  shows "round_mag (of_int m * 2 powi e) = of_int m * 2 powi e"
proof -
  define a :: rat where "a = of_int m * 2 powi e"
  have apos: "0 < a" using assms(1) by (simp add: a_def)
  have "(of_int m :: rat) < of_int (2 ^ 53)" using assms(2) by (simp only: of_int_less_iff)
  then have "a < of_int (2 ^ 53) * 2 powi e" by (simp add: a_def)
  also have "\<dots> = 2 powi 53 * 2 powi e" by simp
  also have "\<dots> = 2 powi (53 + e)" by (rule power_int_add [symmetric]) simp
  finally have "a < 2 powi (53 + e)" .
  with ilog2_bounds [OF apos] have "ilog2 a < 53 + e" by (intro powi_less_imp_less [of _ a]) simp
  with assms(3) have ex: "expo a \<le> e + 52" by (simp add: expo_def)
  define j where "j = nat (e + 52 - expo a)"
  have "(2::rat) powi ((expo a - 52) + int j) = 2 powi (expo a - 52) * 2 powi int j"
    by (rule power_int_add) simp
  moreover have "(expo a - 52) + int j = e" using ex by (simp add: j_def)
  ultimately have pe: "(2::rat) powi e = ulp a * 2 ^ j" by (simp add: ulp_def)
  have a_eq: "a = of_int m * (ulp a * 2 ^ j)" by (subst a_def, subst pe, rule refl)
  have "a / ulp a = of_int m * (ulp a * 2 ^ j) / ulp a" by (subst a_eq, rule refl)
  also have "\<dots> = of_int (m * 2 ^ j)" using ulp_pos [of a] by simp
  finally have "round_half_even (a / ulp a) = m * 2 ^ j" by (simp only: rhe_of_int)
  then have "round_mag a = of_int (m * 2 ^ j) * ulp a" by (simp add: round_mag_def)
  also have "\<dots> = of_int m * (ulp a * 2 ^ j)" by simp
  also have "\<dots> = a" by (rule a_eq [symmetric])
  finally show ?thesis by (simp only: a_def)
qed

lemma min_subnormal_pos: "0 < min_subnormal"
  unfolding min_subnormal_def by (rule zero_less_power_int) simp

lemma round_mag_grid: "\<exists>k. round_mag a = of_int k * min_subnormal"
proof -
  have e: "- 1022 \<le> expo a" by (simp add: expo_def)
  define j where "j = nat (expo a + 1022)"
  have "(2::rat) powi (- 1074 + int j) = 2 powi (- 1074) * 2 powi int j"
    by (rule power_int_add) simp
  moreover have "- 1074 + int j = expo a - 52" using e by (simp add: j_def)
  ultimately have "ulp a = min_subnormal * of_int (2 ^ j)"
    by (simp only: ulp_def min_subnormal_def power_int_of_nat of_int_power of_int_numeral)
  then have "round_mag a = of_int (round_half_even (a / ulp a) * 2 ^ j) * min_subnormal"
    by (simp add: round_mag_def)
  then show ?thesis by blast
qed

lemma round_mag_pow: "- 1074 \<le> e \<Longrightarrow> round_mag (2 powi e) = 2 powi e"
  using round_mag_exact [of 1 e] by simp

lemma round_mag_pos:
  assumes "min_subnormal \<le> a"
  shows "0 < round_mag a"
proof -
  have "round_mag min_subnormal \<le> round_mag a"
    using assms min_subnormal_pos by (intro round_mag_mono) simp_all
  moreover have "round_mag min_subnormal = min_subnormal"
    unfolding min_subnormal_def by (rule round_mag_pow) simp
  ultimately show ?thesis using min_subnormal_pos by linarith
qed

lemma round_mag_bounded:
  assumes "0 \<le> a" "a \<le> 2 powi e" "- 1074 \<le> e"
  shows "round_mag a \<le> 2 powi e"
  using round_mag_mono [OF assms(1,2)] round_mag_pow [OF assms(3)] by simp

lemma round_double_nonneg:
  "0 \<le> r \<Longrightarrow> round_mag r < 2 ^ 1024 \<Longrightarrow> round_double r = Finite (round_mag r)"
  by (simp add: round_double_def Let_def)

lemma round_double_neg:
  "r < 0 \<Longrightarrow> 0 < round_mag (- r) \<Longrightarrow> round_mag (- r) < 2 ^ 1024 \<Longrightarrow>
   round_double r = Finite (- round_mag (- r))"
  by (simp add: round_double_def Let_def)

lemma round_double_cases_nonneg:
  "0 \<le> r \<Longrightarrow> round_double r = PosInf \<or> round_double r = Finite (round_mag r)"
  by (simp add: round_double_def Let_def)

lemma round_double_cases_neg:
  "r < 0 \<Longrightarrow> round_double r = NegInf \<or> round_double r = NegZero \<and> round_mag (- r) = 0
     \<or> round_double r = Finite (- round_mag (- r)) \<and> 0 < round_mag (- r)"
  using round_mag_nonneg [of "- r"] by (auto simp: round_double_def Let_def)

lemma round_double_exact:
  assumes "\<bar>m\<bar> < 2 ^ 53" "- 1074 \<le> e" "\<bar>of_int m * 2 powi e\<bar> < (2::rat) ^ 1024"
  shows "round_double (of_int m * 2 powi e) = Finite (of_int m * 2 powi e)"
proof -
  define q :: rat where "q = of_int m * 2 powi e"
  consider "m = 0" | "0 < m" | "m < 0" by linarith
  then show ?thesis
  proof cases
    case 1
    then show ?thesis by (simp add: round_double_def round_mag_zero)
  next
    case 2
    then have "round_mag q = q" unfolding q_def using assms by (intro round_mag_exact) simp_all
    moreover have "0 \<le> q" using 2 by (simp add: q_def)
    ultimately have "round_double q = Finite q"
      using assms(3) round_double_nonneg [of q] by (simp add: q_def)
    then show ?thesis by (simp only: q_def)
  next
    case 3
    have nq: "- q = of_int (- m) * 2 powi e" by (simp add: q_def)
    have "round_mag (of_int (- m) * 2 powi e) = of_int (- m) * 2 powi e"
      using 3 assms by (intro round_mag_exact) simp_all
    then have rm: "round_mag (- q) = - q" by (simp only: nq)
    have neg: "q < 0" using 3 by (simp add: q_def mult_neg_pos)
    then have "round_double q = Finite (- round_mag (- q))"
      using assms(3) rm by (intro round_double_neg) (simp_all add: q_def)
    then have "round_double q = Finite q" by (simp add: rm)
    then show ?thesis by (simp only: q_def)
  qed
qed

lemma round_double_of_int:
  assumes "\<bar>n\<bar> < 2 ^ 53"
  shows "round_double (of_int n) = Finite (of_int n)"
proof -
  have "\<bar>of_int n :: rat\<bar> < of_int (2 ^ 53)" using assms by (simp only: of_int_abs [symmetric] of_int_less_iff)
  also have "\<dots> < (2::rat) ^ 1024" by simp
  finally have "\<bar>of_int n * 2 powi 0\<bar> < (2::rat) ^ 1024" by simp
  with assms round_double_exact [of n 0] show ?thesis by simp
qed

lemma on_grid_multiple: "on_grid (of_int k * min_subnormal)"
  using min_subnormal_pos by (simp add: on_grid_def)

lemma on_grid_round_mag: "on_grid (round_mag a)"
  using round_mag_grid [of a] on_grid_multiple by auto

lemma on_grid_zero: "on_grid 0"
  by (simp add: on_grid_def)

lemma on_grid_minus: "on_grid q \<Longrightarrow> on_grid (- q)"
  by (simp add: on_grid_def)

lemma on_grid_add: "on_grid p \<Longrightarrow> on_grid q \<Longrightarrow> on_grid (p + q)"
  by (simp add: on_grid_def add_divide_distrib)

lemma on_grid_lower:
  assumes "on_grid q" "0 < q"
  shows "min_subnormal \<le> q"
proof -
  from assms(1) obtain k :: int where k: "q / min_subnormal = of_int k"
    by (auto simp: on_grid_def elim: Ints_cases)
  have "0 < q / min_subnormal" using assms(2) min_subnormal_pos by simp
  then have "(0::rat) < of_int k" by (simp only: k)
  then have "0 < k" by simp
  then have "(1::rat) \<le> of_int k" by simp
  then have "1 \<le> q / min_subnormal" by (simp only: k)
  then show ?thesis using min_subnormal_pos by (simp add: le_divide_eq)
qed

lemma on_grid_round_double: "on_grid (valof (round_double r))"
  by (simp add: round_double_def Let_def on_grid_zero on_grid_minus on_grid_round_mag)

lemma on_grid_is_double:
  assumes "is_double a"
  shows "on_grid (valof a)"
proof (cases a)
  case (Finite q)
  with assms have "valof (round_double q) = q" by simp
  with on_grid_round_double [of q] show ?thesis by (simp add: Finite)
qed (simp_all add: on_grid_zero)

lemma on_grid_signed_zero: "on_grid (valof (signed_zero n))"
  by (simp add: signed_zero_def on_grid_zero)

lemma on_grid_signed_inf: "on_grid (valof (signed_inf n))"
  by (simp add: signed_inf_def on_grid_zero)

lemma on_grid_double_div: "on_grid (valof (double_div a b))"
  by (simp add: double_div_def on_grid_zero on_grid_signed_zero on_grid_signed_inf
      on_grid_round_double)

lemma on_grid_double_neg: "on_grid (valof a) \<Longrightarrow> on_grid (valof (double_neg a))"
  by (cases a) (simp_all add: on_grid_zero on_grid_minus)

lemma double_neg_finite [simp]: "is_finite (double_neg a) = is_finite a"
  by (cases a) simp_all

lemma double_neg_nan [simp]: "is_nan (double_neg a) = is_nan a"
  by (cases a) simp_all

lemma valof_double_neg [simp]: "valof (double_neg a) = - valof a"
  by (cases a) simp_all

lemma zero_le_signed_zero: "double_le (Finite 0) (signed_zero n)"
  by (simp add: double_le_def signed_zero_def)

lemma zero_le_round_double:
  assumes "0 \<le> r"
  shows "double_le (Finite 0) (round_double r)"
  using round_double_cases_nonneg [OF assms] round_mag_nonneg [OF assms]
  by (auto simp: double_le_def)

lemma round_double_less_zero:
  assumes "r < 0" "on_grid r"
  shows "double_lt (round_double r) (Finite 0)"
proof -
  have "min_subnormal \<le> - r"
    using assms on_grid_minus [of r] by (intro on_grid_lower) simp_all
  then have "0 < round_mag (- r)" by (rule round_mag_pos)
  with round_double_cases_neg [OF assms(1)] show ?thesis
    by (auto simp: double_lt_def)
qed

lemma finite_not_nan: "is_finite a \<Longrightarrow> \<not> is_nan a"
  by (cases a) simp_all

lemma double_add_finite:
  assumes "is_finite a" "is_finite b"
  shows "double_add a b =
           (if valof a + valof b = 0 then signed_zero (sign_bit a \<and> sign_bit b)
            else round_double (valof a + valof b))"
proof -
  have "\<not> is_nan a" "\<not> is_nan b" using assms by (simp_all add: finite_not_nan)
  then show ?thesis using assms by (simp only: double_add_def Let_def simp_thms if_False if_True)
qed

lemma double_add_nonneg:
  assumes "is_finite a" "is_finite b" "0 \<le> valof a + valof b"
  shows "double_le (Finite 0) (double_add a b)"
proof (cases "valof a + valof b = 0")
  case True
  have "double_add a b = signed_zero (sign_bit a \<and> sign_bit b)"
    by (subst double_add_finite [OF assms(1,2)], subst if_P [OF True], rule refl)
  then show ?thesis by (simp only: zero_le_signed_zero)
next
  case False
  have "double_add a b = round_double (valof a + valof b)"
    by (subst double_add_finite [OF assms(1,2)], subst if_not_P [OF False], rule refl)
  then show ?thesis by (simp only: zero_le_round_double [OF assms(3)])
qed

lemma double_add_negative:
  assumes "is_finite a" "is_finite b" "on_grid (valof a)" "on_grid (valof b)"
    "valof a + valof b < 0"
  shows "double_lt (double_add a b) (Finite 0)"
proof -
  have ne: "valof a + valof b \<noteq> 0" using assms(5) by simp
  have "double_lt (round_double (valof a + valof b)) (Finite 0)"
    using assms(3-5) by (intro round_double_less_zero on_grid_add)
  moreover have "double_add a b = round_double (valof a + valof b)"
    by (subst double_add_finite [OF assms(1,2)], subst if_not_P [OF ne], rule refl)
  ultimately show ?thesis by (simp only:)
qed

lemma double_sub_nonneg:
  assumes "double_le b a" "is_finite a \<or> is_finite b"
  shows "double_le (Finite 0) (double_sub a b)"
proof (cases "is_finite a \<and> is_finite b")
  case True
  then have "valof b \<le> valof a" using assms(1) by (auto simp: double_le_def)
  then have "0 \<le> valof a + valof (double_neg b)" by simp
  moreover have "is_finite (double_neg b)" using True by simp
  ultimately show ?thesis
    unfolding double_sub_def using True by (intro double_add_nonneg) simp_all
next
  case False
  with assms show ?thesis
    by (cases a; cases b) (simp_all add: double_le_def double_sub_def double_add_def)
qed

lemma double_sub_negative:
  assumes "double_lt a b" "on_grid (valof a)" "on_grid (valof b)"
  shows "double_lt (double_sub a b) (Finite 0)"
proof (cases "is_finite a \<and> is_finite b")
  case True
  then have "valof a < valof b" using assms(1) by (auto simp: double_lt_def)
  then have "valof a + valof (double_neg b) < 0" by simp
  moreover have "on_grid (valof (double_neg b))" using assms(3) by (rule on_grid_double_neg)
  moreover have "is_finite (double_neg b)" using True by simp
  ultimately show ?thesis
    unfolding double_sub_def using True assms(2) by (intro double_add_negative) simp_all
next
  case False
  with assms(1) show ?thesis
    by (cases a; cases b) (simp_all add: double_lt_def double_sub_def double_add_def)
qed


section \<open>The rounding on known values\<close>

text \<open>
  The nearest \<open>double\<close> to one tenth; ties going to the even significand, down and up; the
  tie between the largest finite \<open>double\<close> and \<open>2 ^ 1024\<close> going to infinity; half of the
  smallest subnormal going to zero, with the sign kept.
\<close>

lemma round_mag_at:
  assumes "2 powi e \<le> a" "a < 2 powi (e + 1)" "- 1022 \<le> e"
  shows "round_mag a = of_int (round_half_even (a / 2 powi (e - 52))) * 2 powi (e - 52)"
proof -
  have "ilog2 a = e" using assms(1,2) by (rule ilog2_unique)
  then have "expo a = e" using assms(3) by (simp add: expo_def)
  then show ?thesis by (simp add: round_mag_def ulp_def)
qed

lemma round_mag_subnormal:
  assumes "0 < a" "a < 2 powi (- 1022)"
  shows "round_mag a = of_int (round_half_even (a / 2 powi (- 1074))) * 2 powi (- 1074)"
proof -
  have "2 powi ilog2 a < (2::rat) powi (- 1022)" using ilog2_bounds [OF assms(1)] assms(2) by linarith
  then have "ilog2 a < - 1022" 
    using power_int_increasing [of "- 1022" "ilog2 a" "2::rat"] by (cases "ilog2 a < - 1022") auto
  then have "expo a = - 1022" by (simp add: expo_def)
  then show ?thesis by (simp add: round_mag_def ulp_def)
qed

lemma floor_numeral_quotient:
  "\<lfloor>numeral a / numeral b :: rat\<rfloor> = numeral a div numeral b"
  using floor_divide_of_int_eq [of "numeral a" "numeral b", where ?'a = rat] by simp

lemma floor_half: "\<lfloor>1 / 2 :: rat\<rfloor> = 0"
  using floor_divide_of_int_eq [of 1 2, where ?'a = rat] by simp

lemma round_double_tenth: "round_double (1 / 10) = Finite (3602879701896397 / 36028797018963968)"
proof -
  have "round_mag (1 / 10) = 3602879701896397 / 36028797018963968"
    using round_mag_at [of "- 4" "1 / 10"] by (simp add: round_half_even_def Let_def floor_numeral_quotient)
  then show ?thesis by (simp add: round_double_def)
qed

lemma round_double_tie_down: "round_double (2 ^ 53 + 1) = Finite (2 ^ 53)"
proof -
  have "round_mag (2 ^ 53 + 1) = 2 ^ 53"
    using round_mag_at [of 53 "2 ^ 53 + 1"] by (simp add: round_half_even_def Let_def floor_numeral_quotient)
  then show ?thesis by (simp add: round_double_def)
qed

lemma round_double_tie_up: "round_double (2 ^ 53 + 3) = Finite (2 ^ 53 + 4)"
proof -
  have "round_mag (2 ^ 53 + 3) = 2 ^ 53 + 4"
    using round_mag_at [of 53 "2 ^ 53 + 3"] by (simp add: round_half_even_def Let_def floor_numeral_quotient)
  then show ?thesis by (simp add: round_double_def)
qed

lemma round_double_overflow: "round_double (2 ^ 1024 - 2 ^ 970) = PosInf"
proof -
  have "round_mag (2 ^ 1024 - 2 ^ 970) = 2 ^ 1024"
    using round_mag_at [of 1023 "2 ^ 1024 - 2 ^ 970"] by (simp add: round_half_even_def Let_def floor_numeral_quotient)
  then show ?thesis by (simp add: round_double_def)
qed

lemma round_double_underflow: "round_double (- (1 / 2 ^ 1075)) = NegZero"
proof -
  have "round_mag (1 / 2 ^ 1075) = 0"
    using round_mag_subnormal [of "1 / 2 ^ 1075"]
    by (simp add: round_half_even_def Let_def floor_half)
  then show ?thesis by (simp add: round_double_def)
qed


text \<open>Values that are computed exactly, for the example runs.\<close>

lemma round_double_numeral:
  "numeral k < (2::int) ^ 53 \<Longrightarrow> round_double (numeral k) = Finite (numeral k)"
  using round_double_of_int [of "numeral k"] by simp

lemma round_double_neg_numeral:
  "numeral k < (2::int) ^ 53 \<Longrightarrow> round_double (- numeral k) = Finite (- numeral k)"
  using round_double_of_int [of "- numeral k"] by simp

lemma round_double_0: "round_double 0 = Finite 0"
  using round_double_of_int [of 0] by simp

lemma round_double_1: "round_double 1 = Finite 1"
  using round_double_of_int [of 1] by simp

lemma round_double_m1: "round_double (- 1) = Finite (- 1)"
  using round_double_of_int [of "- 1"] by simp

lemmas eval_double =
  double_of_uint64_def double_of_int64_def double_of_int32_def double_div_def double_sub_def
  double_add_def signed_inf_def signed_zero_def round_double_numeral round_double_neg_numeral
  round_double_0 round_double_1 round_double_m1

lemma QuadPart_low: "QuadPart \<lparr>dwLowDateTime = lo, dwHighDateTime = 0\<rparr> = ucast lo"
  by (simp add: QuadPart_def word_cat_eq)


section \<open>The paths through each branch\<close>

lemma diagnostics_append: "diagnostics (xs @ ys) = diagnostics xs @ diagnostics ys"
  by (induction xs rule: diagnostics.induct) simp_all

lemma diagnostics_LOG:
  "diagnostics (GTSPS_LOG_ERROR b m) = (if logging b then [m] else [])"
  by (simp add: GTSPS_LOG_ERROR_def logging_def)

lemma held_append: "held (xs @ ys) hs = held ys (held xs hs)"
  by (induction xs hs rule: held.induct) simp_all

lemma held_LOG: "held (GTSPS_LOG_ERROR b m) hs = hs"
  by (simp add: GTSPS_LOG_ERROR_def)

lemma probe_LOG: "\<not> list_ex current_time_probe (GTSPS_LOG_ERROR b m)"
  by (simp add: GTSPS_LOG_ERROR_def)

lemma proc_paths_differ: "proc_self_stat \<noteq> proc_uptime"
  by (simp add: proc_self_stat_def proc_uptime_def)

lemma target_linux: "target {''__linux__''} = Linux"
  by (simp add: target_def)

lemma target_apple: "target {''__APPLE__''} = Apple"
  by (simp add: target_def)

lemma target_win32: "target {''_WIN32''} = Win32"
  by (simp add: target_def)

lemma win32_failed:
  "GetProcessTimes_ret w = 0 \<Longrightarrow>
   GetTimeSinceProcessStart_win32 b w =
     (Finite 0, [Call_GetCurrentProcess, Call_GetProcessTimes]
        @ GTSPS_LOG_ERROR b msg_GetProcessTimes)"
  by (simp add: GetTimeSinceProcessStart_win32_def)

lemma win32_measured:
  "GetProcessTimes_ret w \<noteq> 0 \<Longrightarrow>
   GetTimeSinceProcessStart_win32 b w =
     (double_sub (win32_currentTime w) (win32_startTime w),
      [Call_GetCurrentProcess, Call_GetProcessTimes, Call_GetSystemTimeAsFileTime])"
  by (simp add: GetTimeSinceProcessStart_win32_def)

lemma linux_open_stat_failed:
  "fopen_stat l = None \<Longrightarrow>
   GetTimeSinceProcessStart_linux b l =
     (Finite 0, [Call_fopen proc_self_stat None] @ GTSPS_LOG_ERROR b msg_open_stat)"
  by (simp add: GetTimeSinceProcessStart_linux_def)

lemma linux_decode_stat_failed:
  "fopen_stat l = Some f \<Longrightarrow> fscanf_stat_ret l \<noteq> 1 \<Longrightarrow>
   GetTimeSinceProcessStart_linux b l =
     (Finite 0, [Call_fopen proc_self_stat (Some f), Call_fscanf f, Call_fclose f]
        @ GTSPS_LOG_ERROR b msg_decode_stat)"
  by (simp add: GetTimeSinceProcessStart_linux_def)

lemma linux_open_uptime_failed:
  "fopen_stat l = Some f \<Longrightarrow> fscanf_stat_ret l = 1 \<Longrightarrow> fopen_uptime l = None \<Longrightarrow>
   GetTimeSinceProcessStart_linux b l =
     (Finite 0, [Call_fopen proc_self_stat (Some f), Call_fscanf f, Call_fclose f, Call_sysconf,
                 Call_fopen proc_uptime None]
        @ GTSPS_LOG_ERROR b msg_open_uptime)"
  by (simp add: GetTimeSinceProcessStart_linux_def)

lemma linux_decode_uptime_failed:
  "fopen_stat l = Some f \<Longrightarrow> fscanf_stat_ret l = 1 \<Longrightarrow> fopen_uptime l = Some g \<Longrightarrow>
   fscanf_uptime_ret l \<noteq> 1 \<Longrightarrow>
   GetTimeSinceProcessStart_linux b l =
     (Finite 0, [Call_fopen proc_self_stat (Some f), Call_fscanf f, Call_fclose f, Call_sysconf,
                 Call_fopen proc_uptime (Some g), Call_fscanf g, Call_fclose g]
        @ GTSPS_LOG_ERROR b msg_decode_uptime)"
  by (simp add: GetTimeSinceProcessStart_linux_def)

lemma linux_measured:
  "fopen_stat l = Some f \<Longrightarrow> fscanf_stat_ret l = 1 \<Longrightarrow> fopen_uptime l = Some g \<Longrightarrow>
   fscanf_uptime_ret l = 1 \<Longrightarrow>
   GetTimeSinceProcessStart_linux b l =
     (double_sub (fscanf_uptime_value l) (processStartTimeInSeconds l),
      [Call_fopen proc_self_stat (Some f), Call_fscanf f, Call_fclose f, Call_sysconf,
       Call_fopen proc_uptime (Some g), Call_fscanf g, Call_fclose g])"
  by (simp add: GetTimeSinceProcessStart_linux_def)

lemma apple_failed:
  "sint (proc_pidinfo_ret a) \<le> 0 \<Longrightarrow>
   GetTimeSinceProcessStart_apple b a =
     (Finite 0, [Call_getpid, Call_proc_pidinfo] @ GTSPS_LOG_ERROR b msg_proc_pidinfo)"
  by (simp add: GetTimeSinceProcessStart_apple_def)

lemma apple_measured:
  "0 < sint (proc_pidinfo_ret a) \<Longrightarrow>
   GetTimeSinceProcessStart_apple b a =
     (timeval_elapsed (gettimeofday_tv a) (apple_startTime a),
      [Call_getpid, Call_proc_pidinfo, Call_gettimeofday])"
  by (simp add: GetTimeSinceProcessStart_apple_def Let_def)


section \<open>Failure of the creation-time probe\<close>

text \<open>
  Claim C2. Whenever the creation-time probe fails (\<open>GetProcessTimes\<close> returns zero; the
  open or the decoding of \<open>/proc/self/stat\<close> fails; \<open>proc_pidinfo\<close> returns a non-positive
  status), the function returns \<open>0.0\<close>, the diagnostic of that failure is the last thing
  it does and the only diagnostic, and no call that samples the current time was made.
\<close>

theorem creation_failure_returns_at_once:
  "creation_probe_failed (target b) s \<Longrightarrow>
   fst (GetTimeSinceProcessStart b s) = Finite 0 \<and>
   \<not> list_ex current_time_probe (snd (GetTimeSinceProcessStart b s)) \<and>
   (\<exists>calls. snd (GetTimeSinceProcessStart b s)
               = calls @ GTSPS_LOG_ERROR b (creation_diag (target b) s) \<and>
            diagnostics calls = [])"
proof (cases "target b")
  case Win32
  assume "creation_probe_failed (target b) s"
  with Win32 show ?thesis
    by (simp add: GetTimeSinceProcessStart_def win32_failed probe_LOG)
next
  case Linux
  assume f: "creation_probe_failed (target b) s"
  show ?thesis
  proof (cases "fopen_stat (linux s)")
    case None
    with Linux show ?thesis
      by (simp add: GetTimeSinceProcessStart_def linux_open_stat_failed probe_LOG
          proc_paths_differ)
  next
    case (Some h)
    with Linux f show ?thesis
      by (simp add: GetTimeSinceProcessStart_def linux_decode_stat_failed probe_LOG
          proc_paths_differ)
  qed
next
  case Apple
  assume "creation_probe_failed (target b) s"
  with Apple show ?thesis
    by (simp add: GetTimeSinceProcessStart_def apple_failed probe_LOG)
next
  case Unsupported
  assume "creation_probe_failed (target b) s"
  with Unsupported show ?thesis by simp
qed

theorem creation_failure_returns_at_once_witness:
  "creation_probe_failed (target {''__linux__''})
     (failing_os\<lparr>linux := working_linux\<lparr>fscanf_stat_ret := 0\<rparr>\<rparr>) \<and>
   GetTimeSinceProcessStart {''__linux__''}
     (failing_os\<lparr>linux := working_linux\<lparr>fscanf_stat_ret := 0\<rparr>\<rparr>)
   = (Finite 0, [Call_fopen proc_self_stat (Some 3), Call_fscanf 3, Call_fclose 3,
                 Call_fprintf_stderr msg_decode_stat])"
  using creation_failure_returns_at_once
    [of "{''__linux__''}" "failing_os\<lparr>linux := working_linux\<lparr>fscanf_stat_ret := 0\<rparr>\<rparr>"]
  by (simp add: target_linux working_linux_def GetTimeSinceProcessStart_def
      linux_decode_stat_failed GTSPS_LOG_ERROR_def)


section \<open>The unsupported platform\<close>

text \<open>
  Claim C6. When none of the platform macros is defined, the function returns \<open>0.0\<close> and
  makes no call at all: no probe and no diagnostic.
\<close>

theorem unsupported_returns_zero:
  "target b = Unsupported \<Longrightarrow> GetTimeSinceProcessStart b s = (Finite 0, [])"
  by (simp add: GetTimeSinceProcessStart_def)

theorem unsupported_returns_zero_witness:
  "target {} = Unsupported \<and> GetTimeSinceProcessStart {} failing_os = (Finite 0, [])"
  using unsupported_returns_zero [of "{}" failing_os] by (simp add: target_def)


section \<open>The Apple branch: when the process-info query counts as failed\<close>

text \<open>
  Claim C7. On the Apple branch the creation-time probe is taken as failed exactly when
  \<open>proc_pidinfo\<close> returns zero or a negative status: then the function logs its diagnostic
  and returns \<open>0.0\<close> without going on, and with any positive status it goes on to
  \<open>gettimeofday\<close> and logs nothing.
\<close>

theorem apple_failure_iff_nonpositive:
  "target b = Apple \<Longrightarrow>
   (if sint (proc_pidinfo_ret (apple s)) \<le> 0
    then GetTimeSinceProcessStart b s
           = (Finite 0, [Call_getpid, Call_proc_pidinfo] @ GTSPS_LOG_ERROR b msg_proc_pidinfo)
    else snd (GetTimeSinceProcessStart b s)
           = [Call_getpid, Call_proc_pidinfo, Call_gettimeofday])"
  by (simp add: GetTimeSinceProcessStart_def apple_failed apple_measured)

theorem apple_failure_iff_nonpositive_witness:
  "target {''__APPLE__''} = Apple \<and>
   sint (proc_pidinfo_ret (apple failing_os)) = 0 \<and>
   GetTimeSinceProcessStart {''__APPLE__''} failing_os
     = (Finite 0, [Call_getpid, Call_proc_pidinfo, Call_fprintf_stderr msg_proc_pidinfo]) \<and>
   sint (proc_pidinfo_ret (apple (failing_os\<lparr>apple := working_apple\<rparr>))) = 136 \<and>
   snd (GetTimeSinceProcessStart {''__APPLE__''} (failing_os\<lparr>apple := working_apple\<rparr>))
     = [Call_getpid, Call_proc_pidinfo, Call_gettimeofday]"
  using apple_failure_iff_nonpositive [of "{''__APPLE__''}" failing_os]
    apple_failure_iff_nonpositive [of "{''__APPLE__''}" "failing_os\<lparr>apple := working_apple\<rparr>"]
  by (simp add: target_apple failing_os_def working_apple_def GTSPS_LOG_ERROR_def)


section \<open>File handles\<close>

text \<open>
  Claim C8. After the calls of any run, on any platform and along every path (the paths
  where \<open>fscanf\<close> does not decode included), no handle returned by \<open>fopen\<close> is still open:
  each one was closed by \<open>fclose\<close> before the function returned.
\<close>

theorem handles_closed: "held (snd (GetTimeSinceProcessStart b s)) [] = []"
  by (simp add: GetTimeSinceProcessStart_def GetTimeSinceProcessStart_win32_def
      GetTimeSinceProcessStart_linux_def GetTimeSinceProcessStart_apple_def
      held_append held_LOG Let_def split: platform.splits option.splits)

theorem handles_closed_witness:
  "Call_fopen proc_self_stat (Some 3)
     \<in> set (snd (GetTimeSinceProcessStart {''__linux__''}
               (failing_os\<lparr>linux := working_linux\<lparr>fscanf_stat_ret := 0\<rparr>\<rparr>))) \<and>
   held (snd (GetTimeSinceProcessStart {''__linux__''}
               (failing_os\<lparr>linux := working_linux\<lparr>fscanf_stat_ret := 0\<rparr>\<rparr>))) [] = []"
  using handles_closed
    [of "{''__linux__''}" "failing_os\<lparr>linux := working_linux\<lparr>fscanf_stat_ret := 0\<rparr>\<rparr>"]
  by (simp add: target_linux working_linux_def GetTimeSinceProcessStart_def
      linux_decode_stat_failed)


section \<open>The two scenarios\<close>

text \<open>
  Claim C3. On the Linux branch, when \<open>/proc/self/stat\<close> decodes to a start time of 500
  ticks, \<open>sysconf(_SC_CLK_TCK)\<close> is 100 and \<open>/proc/uptime\<close> decodes to \<open>10.0\<close>, the
  function returns exactly \<open>5.0\<close>: \<open>10.0 - 500 / 100\<close>.
\<close>

theorem linux_scenario:
  "target b = Linux \<Longrightarrow> fopen_stat (linux s) = Some f \<Longrightarrow> fscanf_stat_ret (linux s) = 1 \<Longrightarrow>
   fscanf_stat_value (linux s) = 500 \<Longrightarrow> sysconf_CLK_TCK (linux s) = 100 \<Longrightarrow>
   fopen_uptime (linux s) = Some g \<Longrightarrow> fscanf_uptime_ret (linux s) = 1 \<Longrightarrow>
   fscanf_uptime_value (linux s) = Finite 10 \<Longrightarrow>
   fst (GetTimeSinceProcessStart b s) = Finite 5"
  by (simp add: GetTimeSinceProcessStart_def linux_measured processStartTimeInSeconds_def
      eval_double)

theorem linux_scenario_witness:
  "target {''__linux__''} = Linux \<and>
   linux (failing_os\<lparr>linux := working_linux\<rparr>) =
     \<lparr>fopen_stat = Some 3, fscanf_stat_ret = 1, fscanf_stat_value = 500,
      sysconf_CLK_TCK = 100, fopen_uptime = Some 3, fscanf_uptime_ret = 1,
      fscanf_uptime_value = Finite 10\<rparr> \<and>
   fst (GetTimeSinceProcessStart {''__linux__''} (failing_os\<lparr>linux := working_linux\<rparr>)) = Finite 5"
  using linux_scenario [of "{''__linux__''}" "failing_os\<lparr>linux := working_linux\<rparr>" 3 3]
  by (simp add: target_linux working_linux_def)

text \<open>
  Claim C4. On the Windows branch, when the creation time is 100000000 ticks of 100 ns and the
  system time is 150000000 ticks, the function returns exactly \<open>5.0\<close>: each count is
  converted to \<open>double\<close> and divided by \<open>10000000.0\<close>, and the quotients \<open>15.0\<close> and
  \<open>10.0\<close> are subtracted.
\<close>

theorem win32_scenario:
  "target b = Win32 \<Longrightarrow> GetProcessTimes_ret (win32 s) \<noteq> 0 \<Longrightarrow>
   QuadPart (creationTime (win32 s)) = 100000000 \<Longrightarrow>
   QuadPart (systemTime (win32 s)) = 150000000 \<Longrightarrow>
   fst (GetTimeSinceProcessStart b s) = Finite 5"
  by (simp add: GetTimeSinceProcessStart_def win32_measured win32_startTime_def
      win32_currentTime_def eval_double)

theorem win32_scenario_witness:
  "target {''_WIN32''} = Win32 \<and>
   GetProcessTimes_ret (win32 (failing_os\<lparr>win32 := working_win32\<rparr>)) = 1 \<and>
   QuadPart (creationTime (win32 (failing_os\<lparr>win32 := working_win32\<rparr>))) = 100000000 \<and>
   QuadPart (systemTime (win32 (failing_os\<lparr>win32 := working_win32\<rparr>))) = 150000000 \<and>
   fst (GetTimeSinceProcessStart {''_WIN32''} (failing_os\<lparr>win32 := working_win32\<rparr>)) = Finite 5"
  using win32_scenario [of "{''_WIN32''}" "failing_os\<lparr>win32 := working_win32\<rparr>"]
  by (simp add: target_win32 working_win32_def QuadPart_low)

section \<open>The ticks-per-second constant\<close>

text \<open>
  Claim C9. On the Linux branch, when both files open and decode, the value of
  \<open>sysconf(_SC_CLK_TCK)\<close> is used as it comes, whatever it is (zero and negative values
  included): the call is made, the function returns the uptime minus the quotient of the
  start ticks by that value, and emits no diagnostic. With the constant 0 the examples give
  \<open>10.0 - 500.0 / 0.0\<close>, minus infinity, and with \<open>-1\<close> they give \<open>510.0\<close>.
\<close>

theorem clk_tck_unchecked:
  "target b = Linux \<Longrightarrow> \<not> creation_probe_failed Linux s \<Longrightarrow> \<not> current_probe_failed Linux s \<Longrightarrow>
   fst (GetTimeSinceProcessStart b s)
     = double_sub (fscanf_uptime_value (linux s))
         (double_div (double_of_uint64 (fscanf_stat_value (linux s)))
            (double_of_int64 (sysconf_CLK_TCK (linux s)))) \<and>
   diagnostics (snd (GetTimeSinceProcessStart b s)) = [] \<and>
   Call_sysconf \<in> set (snd (GetTimeSinceProcessStart b s))"
  by (auto simp: GetTimeSinceProcessStart_def linux_measured processStartTimeInSeconds_def)

theorem clk_tck_unchecked_witness:
  "target {''__linux__''} = Linux \<and>
   GetTimeSinceProcessStart {''__linux__''}
     (failing_os\<lparr>linux := working_linux\<lparr>sysconf_CLK_TCK := 0\<rparr>\<rparr>)
   = (NegInf, [Call_fopen proc_self_stat (Some 3), Call_fscanf 3, Call_fclose 3, Call_sysconf,
               Call_fopen proc_uptime (Some 3), Call_fscanf 3, Call_fclose 3]) \<and>
   GetTimeSinceProcessStart {''__linux__''}
     (failing_os\<lparr>linux := working_linux\<lparr>sysconf_CLK_TCK := - 1\<rparr>\<rparr>)
   = (Finite 510, [Call_fopen proc_self_stat (Some 3), Call_fscanf 3, Call_fclose 3, Call_sysconf,
               Call_fopen proc_uptime (Some 3), Call_fscanf 3, Call_fclose 3])"
  using clk_tck_unchecked [of "{''__linux__''}" "failing_os\<lparr>linux := working_linux\<lparr>sysconf_CLK_TCK := 0\<rparr>\<rparr>"]
    clk_tck_unchecked [of "{''__linux__''}" "failing_os\<lparr>linux := working_linux\<lparr>sysconf_CLK_TCK := - 1\<rparr>\<rparr>"]
  by (simp add: target_linux working_linux_def eval_double GetTimeSinceProcessStart_def
      linux_measured)

section \<open>Failure of a probe\<close>

text \<open>
  The failures the code tests. If the creation-time probe fails on any supported platform,
  or on the Linux branch the open or the decoding of \<open>/proc/uptime\<close> fails, the function
  returns \<open>0.0\<close> and emits exactly one diagnostic, the one of the first failing call (none
  when \<open>GTSPS_DONT_LOG_ERRORS\<close> is defined).
\<close>

lemma detected_failure_one_diagnostic:
  "creation_probe_failed (target b) s \<or> target b = Linux \<and> current_probe_failed Linux s \<Longrightarrow>
   fst (GetTimeSinceProcessStart b s) = Finite 0 \<and>
   diagnostics (snd (GetTimeSinceProcessStart b s))
     = (if logging b then [failure_diag (target b) s] else [])"
proof (cases "target b")
  case Win32
  assume "creation_probe_failed (target b) s \<or> target b = Linux \<and> current_probe_failed Linux s"
  with Win32 show ?thesis
    by (simp add: GetTimeSinceProcessStart_def win32_failed diagnostics_append diagnostics_LOG
        failure_diag_def)
next
  case Linux
  assume "creation_probe_failed (target b) s \<or> target b = Linux \<and> current_probe_failed Linux s"
  with Linux show ?thesis
    by (cases "fopen_stat (linux s)"; cases "fopen_uptime (linux s)")
      (auto simp: GetTimeSinceProcessStart_def linux_open_stat_failed linux_decode_stat_failed
        linux_open_uptime_failed linux_decode_uptime_failed diagnostics_append diagnostics_LOG
        failure_diag_def uptime_diag_def)
next
  case Apple
  assume "creation_probe_failed (target b) s \<or> target b = Linux \<and> current_probe_failed Linux s"
  with Apple show ?thesis
    by (simp add: GetTimeSinceProcessStart_def apple_failed diagnostics_append diagnostics_LOG
        failure_diag_def)
next
  case Unsupported
  assume "creation_probe_failed (target b) s \<or> target b = Linux \<and> current_probe_failed Linux s"
  with Unsupported show ?thesis by simp
qed

lemma detected_failure_one_diagnostic_example:
  "target {''__linux__''} = Linux \<and>
   current_probe_failed Linux (failing_os\<lparr>linux := working_linux\<lparr>fscanf_uptime_ret := 0\<rparr>\<rparr>) \<and>
   logging {''__linux__''} \<and>
   fst (GetTimeSinceProcessStart {''__linux__''}
          (failing_os\<lparr>linux := working_linux\<lparr>fscanf_uptime_ret := 0\<rparr>\<rparr>)) = Finite 0 \<and>
   diagnostics (snd (GetTimeSinceProcessStart {''__linux__''}
          (failing_os\<lparr>linux := working_linux\<lparr>fscanf_uptime_ret := 0\<rparr>\<rparr>))) = [msg_decode_uptime]"
  using detected_failure_one_diagnostic
    [of "{''__linux__''}" "failing_os\<lparr>linux := working_linux\<lparr>fscanf_uptime_ret := 0\<rparr>\<rparr>"]
  by (simp add: target_linux working_linux_def logging_def failure_diag_def uptime_diag_def)



section \<open>The sign of the measured difference\<close>

lemma sint_diff_wrap:
  "sint (a - b :: 'a::len word) = signed_take_bit (LENGTH('a) - 1) (sint a - sint b)"
  by transfer (simp add: signed_take_bit_diff signed_take_bit_take_bit)

lemma sint_diff_fits:
  fixes a b :: "'a::len word"
  assumes "- (2 ^ (LENGTH('a) - 1)) \<le> sint a - sint b" "sint a - sint b < 2 ^ (LENGTH('a) - 1)"
  shows "sint (a - b) = sint a - sint b"
  using assms by (simp add: sint_diff_wrap signed_take_bit_int_eq_self)

lemma round_mag_one: "round_mag 1 = 1"
  using round_mag_pow [of 0] by simp

lemma pow_1024: "(2::rat) powi 64 < 2 ^ 1024"
  by simp

text \<open>Rounding a magnitude of at most \<open>2 ^ 64\<close>: no overflow.\<close>

lemma round_double_small_nonneg:
  assumes "0 \<le> r" "r \<le> 2 powi 64"
  shows "round_double r = Finite (round_mag r)"
proof -
  have "round_mag r \<le> 2 powi 64" using assms by (intro round_mag_bounded) simp_all
  then have "round_mag r < 2 ^ 1024" using pow_1024 by linarith
  with assms(1) show ?thesis by (rule round_double_nonneg)
qed

lemma round_double_small_neg:
  assumes "r < 0" "min_subnormal \<le> - r" "- r \<le> 2 powi 64"
  shows "round_double r = Finite (- round_mag (- r))"
proof -
  have "round_mag (- r) \<le> 2 powi 64" using assms by (intro round_mag_bounded) simp_all
  then have "round_mag (- r) < 2 ^ 1024" using pow_1024 by linarith
  moreover have "0 < round_mag (- r)" using assms(2) by (rule round_mag_pos)
  ultimately show ?thesis using assms(1) by (intro round_double_neg)
qed

lemma min_subnormal_le_one: "min_subnormal \<le> 1"
proof -
  have "(2::rat) powi (- 1074) \<le> 2 powi 0" by (rule power_int_increasing) simp_all
  then show ?thesis by (simp add: min_subnormal_def)
qed

lemma min_subnormal_le_micro: "min_subnormal \<le> 1 / 1000000"
proof -
  have "(2::rat) powi (- 1074) \<le> 2 powi (- 20)" by (rule power_int_increasing) simp_all
  also have "\<dots> \<le> 1 / 1000000" by simp
  finally show ?thesis by (simp only: min_subnormal_def)
qed

lemma of_nat_unat_bound: "(of_nat (unat (x :: 64 word)) :: rat) \<le> 2 powi 64"
proof -
  have "unat x < 2 ^ 64" using unsigned_less [of x, where ?'a = nat] by simp
  then have "(of_nat (unat x) :: rat) < of_nat (2 ^ 64)" by (simp only: of_nat_less_iff)
  moreover have "(of_nat (2 ^ 64) :: rat) = 2 powi 64" by simp
  ultimately show ?thesis by (simp only: less_imp_le)
qed

lemma double_of_uint64_value:
  "double_of_uint64 x = Finite (round_mag (of_nat (unat x)))"
  unfolding double_of_uint64_def
  by (rule round_double_small_nonneg) (rule of_nat_0_le_iff, rule of_nat_unat_bound)

lemma win32_seconds_value:
  "double_div (double_of_uint64 x) (Finite 10000000)
     = Finite (round_mag (round_mag (of_nat (unat x)) / 10000000))"
proof -
  define v where "v = round_mag (of_nat (unat x))"
  have v0: "0 \<le> v" unfolding v_def by (rule round_mag_nonneg) (rule of_nat_0_le_iff)
  have v64: "v \<le> 2 powi 64"
    unfolding v_def by (rule round_mag_bounded [OF of_nat_0_le_iff of_nat_unat_bound]) simp
  have q0: "0 \<le> v / 10000000" using v0 by simp
  have "v / 10000000 \<le> v" using v0 by (simp add: divide_le_eq)
  then have q64: "v / 10000000 \<le> 2 powi 64" using v64 by linarith
  have r: "round_double (v / 10000000) = Finite (round_mag (v / 10000000))"
    using q0 q64 by (rule round_double_small_nonneg)
  have "double_div (Finite v) (Finite 10000000) = Finite (round_mag (v / 10000000))"
  proof (cases "v = 0")
    case True
    then show ?thesis by (simp add: double_div_def signed_zero_def round_mag_zero)
  next
    case False
    then show ?thesis by (simp add: double_div_def r)
  qed
  then show ?thesis by (simp only: double_of_uint64_value v_def)
qed

lemma win32_ticks_ordered:
  assumes "unat (QuadPart (creationTime w)) \<le> unat (QuadPart (systemTime w))"
  shows "double_le (win32_startTime w) (win32_currentTime w)"
proof -
  have "(of_nat (unat (QuadPart (creationTime w))) :: rat) \<le> of_nat (unat (QuadPart (systemTime w)))"
    using assms by (simp only: of_nat_le_iff)
  then have "round_mag (of_nat (unat (QuadPart (creationTime w))))
               \<le> round_mag (of_nat (unat (QuadPart (systemTime w))))"
    by (rule round_mag_mono [OF of_nat_0_le_iff])
  then have "round_mag (of_nat (unat (QuadPart (creationTime w)))) / 10000000
               \<le> round_mag (of_nat (unat (QuadPart (systemTime w)))) / 10000000"
    by simp
  moreover have "0 \<le> round_mag (of_nat (unat (QuadPart (creationTime w)))) / 10000000"
    using round_mag_nonneg [OF of_nat_0_le_iff, of "unat (QuadPart (creationTime w))"]
    by (simp only: zero_le_divide_iff) simp
  ultimately have "round_mag (round_mag (of_nat (unat (QuadPart (creationTime w)))) / 10000000)
               \<le> round_mag (round_mag (of_nat (unat (QuadPart (systemTime w)))) / 10000000)"
    by (rule round_mag_mono [rotated])
  then show ?thesis
    by (simp add: win32_startTime_def win32_currentTime_def win32_seconds_value double_le_def)
qed

lemma win32_times_finite: "is_finite (win32_startTime w)" "is_finite (win32_currentTime w)"
  by (simp_all add: win32_startTime_def win32_currentTime_def win32_seconds_value)

lemma of_int_bound_64:
  assumes "n \<le> 2 ^ 63"
  shows "(of_int n :: rat) \<le> 2 powi 64"
proof -
  have "n \<le> 2 ^ 64" using assms by simp
  then have "(of_int n :: rat) \<le> of_int (2 ^ 64)" by (simp only: of_int_le_iff)
  then show ?thesis by simp
qed

lemma round_int_nonneg:
  assumes "0 \<le> n" "n \<le> 2 ^ 63"
  shows "round_double (of_int n) = Finite (round_mag (of_int n))"
  using assms by (intro round_double_small_nonneg of_int_bound_64) simp_all

lemma round_mag_int_ge_one:
  assumes "1 \<le> n"
  shows "1 \<le> round_mag (of_int n)"
proof -
  have "round_mag 1 \<le> round_mag (of_int n)" using assms by (intro round_mag_mono) simp_all
  then show ?thesis by (simp only: round_mag_one)
qed

lemma round_int_neg:
  assumes "n < 0" "- n \<le> 2 ^ 63"
  shows "round_double (of_int n) = Finite (- round_mag (of_int (- n)))"
proof -
  have "1 \<le> - n" using assms(1) by simp
  then have "(of_int 1 :: rat) \<le> of_int (- n)" by (simp only: of_int_le_iff)
  then have "min_subnormal \<le> - of_int n" using min_subnormal_le_one by simp
  moreover have "- (of_int n :: rat) \<le> 2 powi 64"
    using of_int_bound_64 [OF assms(2)] by simp
  moreover have "(of_int n :: rat) < 0" using assms(1) by simp
  ultimately have "round_double (of_int n) = Finite (- round_mag (- of_int n))"
    by (intro round_double_small_neg)
  then show ?thesis by simp
qed

lemma double_of_int64_finite: "is_finite (double_of_int64 w)"
proof (cases "0 \<le> sint w")
  case True
  have "sint w \<le> 2 ^ 63" using sint_lt [of w] by simp
  then show ?thesis
    unfolding double_of_int64_def by (simp only: round_int_nonneg [OF True] is_finite.simps)
next
  case False
  then have neg: "sint w < 0" by simp
  have "- sint w \<le> 2 ^ 63" using sint_ge [of w] by simp
  then show ?thesis
    unfolding double_of_int64_def by (simp only: round_int_neg [OF neg] is_finite.simps)
qed

lemma double_of_int64_pos:
  assumes "1 \<le> sint w"
  shows "1 \<le> valof (double_of_int64 w)"
proof -
  have "sint w \<le> 2 ^ 63" using sint_lt [of w] by simp
  moreover have "0 \<le> sint w" using assms by simp
  ultimately have "double_of_int64 w = Finite (round_mag (of_int (sint w)))"
    unfolding double_of_int64_def by (intro round_int_nonneg)
  then show ?thesis using round_mag_int_ge_one [OF assms] by (simp only: valof.simps)
qed

lemma double_of_int64_zero:
  assumes "sint w = 0"
  shows "double_of_int64 w = Finite 0"
  unfolding double_of_int64_def by (simp only: assms of_int_0 round_double_0)

lemma double_of_int64_neg:
  assumes "sint w \<le> - 1"
  shows "valof (double_of_int64 w) \<le> - 1"
proof -
  have "- sint w \<le> 2 ^ 63" using sint_ge [of w] by simp
  moreover have "sint w < 0" using assms by simp
  ultimately have "double_of_int64 w = Finite (- round_mag (of_int (- sint w)))"
    unfolding double_of_int64_def by (intro round_int_neg)
  moreover have "1 \<le> round_mag (of_int (- sint w))"
    using assms by (intro round_mag_int_ge_one) simp
  ultimately show ?thesis by (simp only: valof.simps neg_le_iff_le)
qed

lemma double_of_int32_value: "double_of_int32 u = Finite (of_int (sint u))"
proof -
  have "sint u < 2 ^ 31" "- (2 ^ 31) \<le> sint u" using sint_lt [of u] sint_ge [of u] by simp_all
  then have "\<bar>sint u\<bar> < 2 ^ 53" by simp
  then show ?thesis unfolding double_of_int32_def by (rule round_double_of_int)
qed

lemma almost_one: "round_mag (1048575 / 1048576) = 1048575 / 1048576"
  using round_mag_exact [of 1048575 "- 20"] by simp

lemma usec_quotient_nonneg:
  assumes "0 \<le> d" "d < 1000000"
  shows "usec_quotient d = Finite (round_mag (of_int d / 1000000))"
    and "0 \<le> round_mag (of_int d / 1000000)"
    and "round_mag (of_int d / 1000000) < 1"
proof -
  define q :: rat where "q = of_int d / 1000000"
  have q0: "0 \<le> q" using assms(1) by (simp add: q_def)
  have "d \<le> 999999" using assms(2) by simp
  then have "(of_int d :: rat) \<le> of_int 999999" by (simp only: of_int_le_iff)
  then have qu: "q \<le> 1048575 / 1048576" by (simp add: q_def)
  then have "q \<le> 2 powi 64" by simp
  with q0 have r: "round_double q = Finite (round_mag q)" by (rule round_double_small_nonneg)
  show "usec_quotient d = Finite (round_mag (of_int d / 1000000))"
  proof (cases "d = 0")
    case True
    then show ?thesis
      by (simp add: usec_quotient_def double_div_def signed_zero_def round_mag_zero)
  next
    case False
    then show ?thesis using r by (simp add: usec_quotient_def double_div_def q_def)
  qed
  show "0 \<le> round_mag (of_int d / 1000000)" using q0 unfolding q_def by (rule round_mag_nonneg)
  have "round_mag q \<le> round_mag (1048575 / 1048576)" using q0 qu by (rule round_mag_mono)
  then show "round_mag (of_int d / 1000000) < 1" by (simp add: almost_one q_def)
qed

lemma usec_quotient_neg:
  assumes "d < 0" "- 1000000 < d"
  shows "usec_quotient d = Finite (- round_mag (of_int (- d) / 1000000))"
    and "0 < round_mag (of_int (- d) / 1000000)"
    and "round_mag (of_int (- d) / 1000000) \<le> 1"
proof -
  define q :: rat where "q = of_int (- d) / 1000000"
  have "1 \<le> - d" using assms(1) by simp
  then have "(of_int 1 :: rat) \<le> of_int (- d)" by (simp only: of_int_le_iff)
  then have "1 / 1000000 \<le> q" by (simp add: q_def)
  then have ql: "min_subnormal \<le> q" using min_subnormal_le_micro by linarith
  have "- d \<le> 1000000" using assms(2) by simp
  then have "(of_int (- d) :: rat) \<le> of_int 1000000" by (simp only: of_int_le_iff)
  then have qu: "q \<le> 1" by (simp add: q_def)
  have q0: "0 \<le> q" using ql min_subnormal_pos by linarith
  have "round_double (- q) = Finite (- round_mag (- (- q)))"
    using ql qu q0 min_subnormal_pos by (intro round_double_small_neg) simp_all
  then have r: "round_double (- q) = Finite (- round_mag q)" by simp
  have dq: "of_int d / 1000000 = - q" by (simp add: q_def)
  have "usec_quotient d = Finite (- round_mag q)"
    using assms(1) r by (simp add: usec_quotient_def double_div_def dq)
  then show "usec_quotient d = Finite (- round_mag (of_int (- d) / 1000000))"
    by (simp only: q_def)
  show "0 < round_mag (of_int (- d) / 1000000)" using ql unfolding q_def by (rule round_mag_pos)
  have "round_mag q \<le> round_mag 1" using q0 qu by (rule round_mag_mono)
  then show "round_mag (of_int (- d) / 1000000) \<le> 1" by (simp add: round_mag_one q_def)
qed

lemma timeval_elapsed_parts:
  "timeval_elapsed c s =
     double_add (double_of_int64 (tv_sec c - tv_sec s))
       (usec_quotient (sint (tv_usec c - tv_usec s)))"
  by (simp add: timeval_elapsed_def usec_quotient_def double_of_int32_value)

lemma usec_diff:
  assumes "usec_in_range s" "usec_in_range c"
  shows "sint (tv_usec c - tv_usec s) = sint (tv_usec c) - sint (tv_usec s)"
  using assms by (intro sint_diff_fits) (simp_all add: usec_in_range_def)

lemma sec_diff:
  assumes "sec_diff_fits c s"
  shows "sint (tv_sec c - tv_sec s) = sint (tv_sec c) - sint (tv_sec s)"
  using assms by (intro sint_diff_fits) (simp_all add: sec_diff_fits_def)

lemma usec_quotient_finite:
  assumes "- 1000000 < d" "d < 1000000"
  shows "is_finite (usec_quotient d)"
  using assms usec_quotient_nonneg(1) [of d] usec_quotient_neg(1) [of d]
  by (cases "0 \<le> d") simp_all

lemma on_grid_usec_quotient: "on_grid (valof (usec_quotient d))"
  unfolding usec_quotient_def by (rule on_grid_double_div)

lemma on_grid_double_of_int64: "on_grid (valof (double_of_int64 w))"
  unfolding double_of_int64_def by (rule on_grid_round_double)

lemma apple_elapsed_nonneg:
  assumes "usec_in_range s" "usec_in_range c" "sec_diff_fits c s" "timeval_le s c"
  shows "double_le (Finite 0) (timeval_elapsed c s)"
proof -
  define ds where "ds = sint (tv_sec c - tv_sec s)"
  define du where "du = sint (tv_usec c - tv_usec s)"
  have ds: "ds = sint (tv_sec c) - sint (tv_sec s)" unfolding ds_def using assms(3) by (rule sec_diff)
  have du: "du = sint (tv_usec c) - sint (tv_usec s)"
    unfolding du_def using assms(1,2) by (rule usec_diff)
  have range: "- 1000000 < du" "du < 1000000"
    using assms(1,2) by (simp_all add: du usec_in_range_def)
  have fin: "is_finite (double_of_int64 (tv_sec c - tv_sec s))" "is_finite (usec_quotient du)"
    using range by (simp_all add: double_of_int64_finite usec_quotient_finite)
  have lower: "- 1 \<le> valof (usec_quotient du)"
    using range usec_quotient_nonneg [of du] usec_quotient_neg [of du]
    by (cases "0 \<le> du") simp_all
  from assms(4) consider "1 \<le> ds" | "ds = 0" "0 \<le> du"
    by (auto simp: timeval_le_def ds du)
  then have "0 \<le> valof (double_of_int64 (tv_sec c - tv_sec s)) + valof (usec_quotient du)"
  proof cases
    case 1
    then have "1 \<le> valof (double_of_int64 (tv_sec c - tv_sec s))"
      unfolding ds_def by (rule double_of_int64_pos)
    with lower show ?thesis by linarith
  next
    case 2
    have "double_of_int64 (tv_sec c - tv_sec s) = Finite 0"
      using 2(1) unfolding ds_def by (rule double_of_int64_zero)
    moreover have "0 \<le> valof (usec_quotient du)"
      using 2(2) range usec_quotient_nonneg [of du] by simp
    ultimately show ?thesis by simp
  qed
  with fin have "double_le (Finite 0)
      (double_add (double_of_int64 (tv_sec c - tv_sec s)) (usec_quotient du))"
    by (intro double_add_nonneg)
  then show ?thesis by (simp only: timeval_elapsed_parts du_def)
qed

lemma apple_elapsed_negative:
  assumes "usec_in_range s" "usec_in_range c" "sec_diff_fits c s" "timeval_lt c s"
  shows "double_lt (timeval_elapsed c s) (Finite 0)"
proof -
  define ds where "ds = sint (tv_sec c - tv_sec s)"
  define du where "du = sint (tv_usec c - tv_usec s)"
  have ds: "ds = sint (tv_sec c) - sint (tv_sec s)" unfolding ds_def using assms(3) by (rule sec_diff)
  have du: "du = sint (tv_usec c) - sint (tv_usec s)"
    unfolding du_def using assms(1,2) by (rule usec_diff)
  have range: "- 1000000 < du" "du < 1000000"
    using assms(1,2) by (simp_all add: du usec_in_range_def)
  have fin: "is_finite (double_of_int64 (tv_sec c - tv_sec s))" "is_finite (usec_quotient du)"
    using range by (simp_all add: double_of_int64_finite usec_quotient_finite)
  have upper: "valof (usec_quotient du) < 1"
    using range usec_quotient_nonneg [of du] usec_quotient_neg [of du]
    by (cases "0 \<le> du") simp_all
  from assms(4) consider "ds \<le> - 1" | "ds = 0" "du < 0"
    by (auto simp: timeval_lt_def ds du)
  then have "valof (double_of_int64 (tv_sec c - tv_sec s)) + valof (usec_quotient du) < 0"
  proof cases
    case 1
    then have "valof (double_of_int64 (tv_sec c - tv_sec s)) \<le> - 1"
      unfolding ds_def by (rule double_of_int64_neg)
    with upper show ?thesis by linarith
  next
    case 2
    have "double_of_int64 (tv_sec c - tv_sec s) = Finite 0"
      using 2(1) unfolding ds_def by (rule double_of_int64_zero)
    moreover have "valof (usec_quotient du) < 0"
      using 2(2) range usec_quotient_neg [of du] by simp
    ultimately show ?thesis by simp
  qed
  with fin have "double_lt
      (double_add (double_of_int64 (tv_sec c - tv_sec s)) (usec_quotient du)) (Finite 0)"
    by (intro double_add_negative on_grid_usec_quotient on_grid_double_of_int64)
  then show ?thesis by (simp only: timeval_elapsed_parts du_def)
qed

lemma measured:
  assumes "\<not> creation_probe_failed (target b) s" "\<not> current_probe_failed (target b) s"
  shows "fst (GetTimeSinceProcessStart b s) = sampled_difference (target b) s"
    and "diagnostics (snd (GetTimeSinceProcessStart b s)) = []"
  using assms
  by (cases "target b"; auto simp: GetTimeSinceProcessStart_def win32_measured linux_measured
      apple_measured)+

lemma on_grid_win32: "on_grid (valof (win32_startTime w))" "on_grid (valof (win32_currentTime w))"
  unfolding win32_startTime_def win32_currentTime_def by (rule on_grid_double_div)+

lemma on_grid_processStart: "on_grid (valof (processStartTimeInSeconds l))"
  unfolding processStartTimeInSeconds_def Let_def by (rule on_grid_double_div)

lemma round_double_dyadic:
  assumes "\<bar>m\<bar> < 2 ^ 53" "- 1074 \<le> e" "e \<le> 0"
  shows "round_double (of_int m * 2 powi e) = Finite (of_int m * 2 powi e)"
proof -
  have "(2::rat) powi e \<le> 2 powi 0" using assms(3) by (intro power_int_increasing) simp_all
  then have p: "(2::rat) powi e \<le> 1" by simp
  have "\<bar>of_int m :: rat\<bar> < of_int (2 ^ 53)"
    using assms(1) by (simp only: of_int_abs [symmetric] of_int_less_iff)
  then have m: "\<bar>of_int m :: rat\<bar> < 2 ^ 1024" by simp
  have "\<bar>of_int m * 2 powi e\<bar> = \<bar>of_int m :: rat\<bar> * 2 powi e" by (simp add: abs_mult)
  also have "\<dots> \<le> \<bar>of_int m\<bar> * 1" using p by (intro mult_left_mono) simp_all
  finally have "\<bar>of_int m * 2 powi e\<bar> < (2::rat) ^ 1024" using m by simp
  with assms(1,2) show ?thesis by (rule round_double_exact)
qed

lemma round_double_half: "round_double (1 / 2) = Finite (1 / 2)"
  using round_double_dyadic [of 1 "- 1"] by simp

lemma round_double_neg_half: "round_double (- (1 / 2)) = Finite (- (1 / 2))"
  using round_double_dyadic [of "- 1" "- 1"] by simp

lemma round_double_halves:
  "numeral k < (2::int) ^ 53 \<Longrightarrow> round_double (numeral k / 2) = Finite (numeral k / 2)"
  using round_double_dyadic [of "numeral k" "- 1"] by simp

lemma round_double_neg_halves:
  "numeral k < (2::int) ^ 53 \<Longrightarrow> round_double (- (numeral k / 2)) = Finite (- (numeral k / 2))"
  using round_double_dyadic [of "- numeral k" "- 1"] by simp

lemmas eval_halves =
  round_double_half round_double_neg_half round_double_halves round_double_neg_halves

text \<open>
  Claim C5. When both probes succeed and the sampled current time is not before the sampled
  creation time, the value returned is greater than or equal to \<open>0.0\<close>. On Windows the two
  times are compared as tick counts (or as the seconds computed from them); on Linux as the
  seconds the code subtracts, not both infinite; on Apple systems as well-formed
  \<open>timeval\<close>s, whose seconds and microseconds the code subtracts apart: there a negative
  difference of microseconds is more than \<open>-1.0\<close> second and the difference of seconds is
  then at least \<open>1.0\<close>.
\<close>

theorem elapsed_nonnegative:
  assumes "\<not> creation_probe_failed (target b) s" "\<not> current_probe_failed (target b) s"
    and "current_not_before_creation (target b) s"
  shows "double_le (Finite 0) (fst (GetTimeSinceProcessStart b s))"
proof -
  have "double_le (Finite 0) (sampled_difference (target b) s)"
  proof (cases "target b")
    case Win32
    with assms(3) have "double_le (win32_startTime (win32 s)) (win32_currentTime (win32 s))"
      using win32_ticks_ordered [of "win32 s"] by auto
    then show ?thesis
      using Win32 win32_times_finite(1) [of "win32 s"] by (simp add: double_sub_nonneg)
  next
    case Linux
    with assms(3) show ?thesis by (simp add: double_sub_nonneg)
  next
    case Apple
    with assms(3) show ?thesis by (simp add: apple_elapsed_nonneg)
  next
    case Unsupported
    with assms(3) show ?thesis by simp
  qed
  then show ?thesis by (simp only: measured(1) [OF assms(1,2)])
qed

theorem elapsed_nonnegative_witness:
  "\<not> creation_probe_failed (target {''__APPLE__''}) (failing_os\<lparr>apple := working_apple\<rparr>) \<and>
   \<not> current_probe_failed (target {''__APPLE__''}) (failing_os\<lparr>apple := working_apple\<rparr>) \<and>
   current_not_before_creation (target {''__APPLE__''}) (failing_os\<lparr>apple := working_apple\<rparr>) \<and>
   fst (GetTimeSinceProcessStart {''__APPLE__''} (failing_os\<lparr>apple := working_apple\<rparr>))
     = Finite (9 / 2) \<and>
   double_le (Finite 0)
     (fst (GetTimeSinceProcessStart {''__APPLE__''} (failing_os\<lparr>apple := working_apple\<rparr>))) \<and>
   current_not_before_creation (target {''__linux__''}) (failing_os\<lparr>linux := working_linux\<rparr>) \<and>
   double_le (Finite 0)
     (fst (GetTimeSinceProcessStart {''__linux__''} (failing_os\<lparr>linux := working_linux\<rparr>))) \<and>
   current_not_before_creation (target {''_WIN32''}) (failing_os\<lparr>win32 := working_win32\<rparr>) \<and>
   double_le (Finite 0)
     (fst (GetTimeSinceProcessStart {''_WIN32''} (failing_os\<lparr>win32 := working_win32\<rparr>)))"
  using elapsed_nonnegative [of "{''__APPLE__''}" "failing_os\<lparr>apple := working_apple\<rparr>"]
    elapsed_nonnegative [of "{''__linux__''}" "failing_os\<lparr>linux := working_linux\<rparr>"]
    elapsed_nonnegative [of "{''_WIN32''}" "failing_os\<lparr>win32 := working_win32\<rparr>"]
  by (simp add: target_apple target_linux target_win32 working_apple_def working_linux_def
      working_win32_def apple_startTime_def usec_in_range_def sec_diff_fits_def timeval_le_def
      processStartTimeInSeconds_def QuadPart_low double_le_def
      GetTimeSinceProcessStart_def apple_measured timeval_elapsed_def eval_double eval_halves)

text \<open>
  The order of the values the code subtracts is not always that of the raw counts: on
  Windows two tick counts one apart, at the size of today's \<open>FILETIME\<close> values, convert to
  the same \<open>double\<close>, and a current time one tick before the creation time gives \<open>0.0\<close>.
\<close>

lemma one_tick_apart:
  "double_of_uint64 133500000000000001 = Finite 133500000000000000"
  "double_of_uint64 133500000000000000 = Finite 133500000000000000"
proof -
  have "round_mag 133500000000000001 = 133500000000000000"
    using round_mag_at [of 56 133500000000000001]
    by (simp add: round_half_even_def Let_def floor_numeral_quotient)
  then show "double_of_uint64 133500000000000001 = Finite 133500000000000000"
    by (simp add: double_of_uint64_def round_double_def)
  have "round_mag 133500000000000000 = 133500000000000000"
    using round_mag_at [of 56 133500000000000000]
    by (simp add: round_half_even_def Let_def floor_numeral_quotient)
  then show "double_of_uint64 133500000000000000 = Finite 133500000000000000"
    by (simp add: double_of_uint64_def round_double_def)
qed

lemma QuadPart_value:
  "QuadPart \<lparr>dwLowDateTime = 3984834561, dwHighDateTime = 31082890\<rparr> = 133500000000000001"
  "QuadPart \<lparr>dwLowDateTime = 3984834560, dwHighDateTime = 31082890\<rparr> = 133500000000000000"
  by (simp_all add: QuadPart_def word_cat_eq)

lemma win32_one_tick_back:
  "GetTimeSinceProcessStart {''_WIN32''}
     (failing_os\<lparr>win32 :=
        \<lparr>GetProcessTimes_ret = 1,
         creationTime = \<lparr>dwLowDateTime = 3984834561, dwHighDateTime = 31082890\<rparr>,
         systemTime = \<lparr>dwLowDateTime = 3984834560, dwHighDateTime = 31082890\<rparr>\<rparr>\<rparr>)
   = (Finite 0, [Call_GetCurrentProcess, Call_GetProcessTimes, Call_GetSystemTimeAsFileTime])"
proof -
  define w where "w =
    \<lparr>GetProcessTimes_ret = 1,
     creationTime = \<lparr>dwLowDateTime = 3984834561, dwHighDateTime = 31082890\<rparr>,
     systemTime = \<lparr>dwLowDateTime = 3984834560, dwHighDateTime = 31082890\<rparr>\<rparr>"
  have q: "double_div (Finite 133500000000000000) (Finite 10000000) = Finite 13350000000"
    by (simp add: double_div_def round_double_numeral)
  have s: "win32_startTime w = Finite 13350000000"
    by (simp add: w_def win32_startTime_def QuadPart_value one_tick_apart q)
  have c: "win32_currentTime w = Finite 13350000000"
    by (simp add: w_def win32_currentTime_def QuadPart_value one_tick_apart q)
  have "GetProcessTimes_ret w \<noteq> 0" by (simp add: w_def)
  then have "GetTimeSinceProcessStart_win32 {''_WIN32''} w
        = (Finite 0, [Call_GetCurrentProcess, Call_GetProcessTimes, Call_GetSystemTimeAsFileTime])"
    by (simp add: win32_measured s c double_sub_def double_add_def signed_zero_def)
  then show ?thesis
    by (simp add: GetTimeSinceProcessStart_def target_win32 w_def)
qed

lemma win32_seconds_mono:
  assumes "unat x \<le> unat y"
  shows "win32_seconds x \<le> win32_seconds y"
proof -
  have "(of_nat (unat x) :: rat) \<le> of_nat (unat y)" using assms by (simp only: of_nat_le_iff)
  then have "round_mag (of_nat (unat x)) \<le> round_mag (of_nat (unat y))"
    by (rule round_mag_mono [OF of_nat_0_le_iff])
  then have "round_mag (of_nat (unat x)) / 10000000 \<le> round_mag (of_nat (unat y)) / 10000000"
    by simp
  moreover have "0 \<le> round_mag (of_nat (unat x)) / 10000000"
    using round_mag_nonneg [OF of_nat_0_le_iff, of "unat x"]
    by (simp only: zero_le_divide_iff) simp
  ultimately show ?thesis unfolding win32_seconds_def by (rule round_mag_mono [rotated])
qed

lemma win32_seconds_nonneg: "0 \<le> win32_seconds x"
  unfolding win32_seconds_def
  using round_mag_nonneg [OF of_nat_0_le_iff, of "unat x"]
  by (intro round_mag_nonneg) (simp only: zero_le_divide_iff, simp)

lemma win32_times_value:
  "win32_startTime w = Finite (win32_seconds (QuadPart (creationTime w)))"
  "win32_currentTime w = Finite (win32_seconds (QuadPart (systemTime w)))"
  by (simp_all only: win32_startTime_def win32_currentTime_def win32_seconds_value
      win32_seconds_def)

lemma double_sub_self:
  assumes "0 \<le> v"
  shows "double_sub (Finite v) (Finite v) = Finite 0"
proof -
  have f: "is_finite (Finite v)" "is_finite (double_neg (Finite v))" by simp_all
  have z: "valof (Finite v) + valof (double_neg (Finite v)) = 0" by simp
  have "double_add (Finite v) (double_neg (Finite v))
          = signed_zero (sign_bit (Finite v) \<and> sign_bit (double_neg (Finite v)))"
    by (subst double_add_finite [OF f], subst if_P [OF z], rule refl)
  moreover have "\<not> sign_bit (Finite v)" using assms by simp
  ultimately show ?thesis by (simp add: double_sub_def signed_zero_def)
qed

lemma win32_before:
  assumes "current_before_creation Win32 s"
  shows "double_lt (sampled_difference Win32 s) (Finite 0)
         \<or> win32_currentTime (win32 s) = win32_startTime (win32 s)
           \<and> sampled_difference Win32 s = Finite 0"
proof (cases "double_lt (win32_currentTime (win32 s)) (win32_startTime (win32 s))")
  case True
  then show ?thesis by (simp add: double_sub_negative on_grid_win32)
next
  case False
  with assms have "unat (QuadPart (systemTime (win32 s))) < unat (QuadPart (creationTime (win32 s)))"
    by simp
  then have "win32_seconds (QuadPart (systemTime (win32 s)))
               \<le> win32_seconds (QuadPart (creationTime (win32 s)))"
    by (intro win32_seconds_mono) simp
  moreover have "\<not> win32_seconds (QuadPart (systemTime (win32 s)))
               < win32_seconds (QuadPart (creationTime (win32 s)))"
    using False by (simp add: win32_times_value double_lt_def)
  ultimately have eq: "win32_seconds (QuadPart (systemTime (win32 s)))
               = win32_seconds (QuadPart (creationTime (win32 s)))"
    by simp
  then have "win32_currentTime (win32 s) = win32_startTime (win32 s)"
    by (simp only: win32_times_value)
  moreover have "sampled_difference Win32 s = Finite 0"
    using win32_seconds_nonneg [of "QuadPart (creationTime (win32 s))"]
    by (simp add: win32_times_value eq double_sub_self)
  ultimately show ?thesis by simp
qed

text \<open>
  Claim C10, as the code has it. When both probes succeed and the sampled current time is
  before the sampled creation time, the function returns the difference it computed,
  unchanged, and emits no diagnostic. That difference is negative (less than \<open>0.0\<close>)
  whenever the two times are still apart as the values the code subtracts; on Windows, where
  tick counts closer than the spacing of \<open>double\<close>s at their size convert to the same
  seconds, it is then exactly \<open>0.0\<close>.
\<close>

theorem difference_returned_unclamped:
  assumes "\<not> creation_probe_failed (target b) s" "\<not> current_probe_failed (target b) s"
    and "current_before_creation (target b) s"
  shows "fst (GetTimeSinceProcessStart b s) = sampled_difference (target b) s \<and>
         diagnostics (snd (GetTimeSinceProcessStart b s)) = [] \<and>
         (double_lt (fst (GetTimeSinceProcessStart b s)) (Finite 0)
          \<or> target b = Win32
            \<and> win32_currentTime (win32 s) = win32_startTime (win32 s)
            \<and> fst (GetTimeSinceProcessStart b s) = Finite 0)"
proof -
  have "double_lt (sampled_difference (target b) s) (Finite 0)
        \<or> target b = Win32
          \<and> win32_currentTime (win32 s) = win32_startTime (win32 s)
          \<and> sampled_difference (target b) s = Finite 0"
  proof (cases "target b")
    case Win32
    with assms(3) win32_before [of s] show ?thesis by simp
  next
    case Linux
    with assms(3) show ?thesis
      by (simp add: double_sub_negative on_grid_processStart on_grid_is_double)
  next
    case Apple
    with assms(3) show ?thesis by (simp add: apple_elapsed_negative)
  next
    case Unsupported
    with assms(3) show ?thesis by simp
  qed
  then show ?thesis by (simp only: measured [OF assms(1,2)] simp_thms)
qed

theorem difference_returned_unclamped_witness:
  "current_before_creation (target {''__linux__''})
     (failing_os\<lparr>linux := working_linux\<lparr>fscanf_uptime_value := Finite 2\<rparr>\<rparr>) \<and>
   GetTimeSinceProcessStart {''__linux__''}
     (failing_os\<lparr>linux := working_linux\<lparr>fscanf_uptime_value := Finite 2\<rparr>\<rparr>)
   = (Finite (- 3), [Call_fopen proc_self_stat (Some 3), Call_fscanf 3, Call_fclose 3, Call_sysconf,
                     Call_fopen proc_uptime (Some 3), Call_fscanf 3, Call_fclose 3]) \<and>
   current_before_creation (target {''_WIN32''})
     (failing_os\<lparr>win32 := working_win32\<lparr>systemTime := \<lparr>dwLowDateTime = 50000000, dwHighDateTime = 0\<rparr>\<rparr>\<rparr>) \<and>
   GetTimeSinceProcessStart {''_WIN32''}
     (failing_os\<lparr>win32 := working_win32\<lparr>systemTime := \<lparr>dwLowDateTime = 50000000, dwHighDateTime = 0\<rparr>\<rparr>\<rparr>)
   = (Finite (- 5), [Call_GetCurrentProcess, Call_GetProcessTimes, Call_GetSystemTimeAsFileTime]) \<and>
   current_before_creation (target {''_WIN32''})
     (failing_os\<lparr>win32 :=
        \<lparr>GetProcessTimes_ret = 1,
         creationTime = \<lparr>dwLowDateTime = 3984834561, dwHighDateTime = 31082890\<rparr>,
         systemTime = \<lparr>dwLowDateTime = 3984834560, dwHighDateTime = 31082890\<rparr>\<rparr>\<rparr>) \<and>
   fst (GetTimeSinceProcessStart {''_WIN32''}
     (failing_os\<lparr>win32 :=
        \<lparr>GetProcessTimes_ret = 1,
         creationTime = \<lparr>dwLowDateTime = 3984834561, dwHighDateTime = 31082890\<rparr>,
         systemTime = \<lparr>dwLowDateTime = 3984834560, dwHighDateTime = 31082890\<rparr>\<rparr>\<rparr>)) = Finite 0 \<and>
   current_before_creation (target {''__APPLE__''})
     (failing_os\<lparr>apple := working_apple\<lparr>pbi_start_tvsec := 1700000010\<rparr>\<rparr>) \<and>
   GetTimeSinceProcessStart {''__APPLE__''}
     (failing_os\<lparr>apple := working_apple\<lparr>pbi_start_tvsec := 1700000010\<rparr>\<rparr>)
   = (Finite (- (11 / 2)), [Call_getpid, Call_proc_pidinfo, Call_gettimeofday])"
proof -
  have L: "current_before_creation (target {''__linux__''})
     (failing_os\<lparr>linux := working_linux\<lparr>fscanf_uptime_value := Finite 2\<rparr>\<rparr>) \<and>
   GetTimeSinceProcessStart {''__linux__''}
     (failing_os\<lparr>linux := working_linux\<lparr>fscanf_uptime_value := Finite 2\<rparr>\<rparr>)
   = (Finite (- 3), [Call_fopen proc_self_stat (Some 3), Call_fscanf 3, Call_fclose 3, Call_sysconf,
                     Call_fopen proc_uptime (Some 3), Call_fscanf 3, Call_fclose 3])"
    using difference_returned_unclamped
      [of "{''__linux__''}" "failing_os\<lparr>linux := working_linux\<lparr>fscanf_uptime_value := Finite 2\<rparr>\<rparr>"]
    by (simp add: target_linux working_linux_def processStartTimeInSeconds_def double_lt_def
        GetTimeSinceProcessStart_def linux_measured eval_double)
  have W: "current_before_creation (target {''_WIN32''})
     (failing_os\<lparr>win32 := working_win32\<lparr>systemTime := \<lparr>dwLowDateTime = 50000000, dwHighDateTime = 0\<rparr>\<rparr>\<rparr>) \<and>
   GetTimeSinceProcessStart {''_WIN32''}
     (failing_os\<lparr>win32 := working_win32\<lparr>systemTime := \<lparr>dwLowDateTime = 50000000, dwHighDateTime = 0\<rparr>\<rparr>\<rparr>)
   = (Finite (- 5), [Call_GetCurrentProcess, Call_GetProcessTimes, Call_GetSystemTimeAsFileTime])"
    using difference_returned_unclamped
      [of "{''_WIN32''}" "failing_os\<lparr>win32 := working_win32\<lparr>systemTime := \<lparr>dwLowDateTime = 50000000, dwHighDateTime = 0\<rparr>\<rparr>\<rparr>"]
    by (simp add: target_win32 working_win32_def win32_startTime_def win32_currentTime_def
        QuadPart_low double_lt_def GetTimeSinceProcessStart_def win32_measured eval_double)
  have T: "current_before_creation (target {''_WIN32''})
     (failing_os\<lparr>win32 :=
        \<lparr>GetProcessTimes_ret = 1,
         creationTime = \<lparr>dwLowDateTime = 3984834561, dwHighDateTime = 31082890\<rparr>,
         systemTime = \<lparr>dwLowDateTime = 3984834560, dwHighDateTime = 31082890\<rparr>\<rparr>\<rparr>) \<and>
   fst (GetTimeSinceProcessStart {''_WIN32''}
     (failing_os\<lparr>win32 :=
        \<lparr>GetProcessTimes_ret = 1,
         creationTime = \<lparr>dwLowDateTime = 3984834561, dwHighDateTime = 31082890\<rparr>,
         systemTime = \<lparr>dwLowDateTime = 3984834560, dwHighDateTime = 31082890\<rparr>\<rparr>\<rparr>)) = Finite 0"
    using difference_returned_unclamped
      [of "{''_WIN32''}" "failing_os\<lparr>win32 :=
        \<lparr>GetProcessTimes_ret = 1,
         creationTime = \<lparr>dwLowDateTime = 3984834561, dwHighDateTime = 31082890\<rparr>,
         systemTime = \<lparr>dwLowDateTime = 3984834560, dwHighDateTime = 31082890\<rparr>\<rparr>\<rparr>"]
    by (simp add: target_win32 QuadPart_value win32_one_tick_back)
  have A: "current_before_creation (target {''__APPLE__''})
     (failing_os\<lparr>apple := working_apple\<lparr>pbi_start_tvsec := 1700000010\<rparr>\<rparr>) \<and>
   GetTimeSinceProcessStart {''__APPLE__''}
     (failing_os\<lparr>apple := working_apple\<lparr>pbi_start_tvsec := 1700000010\<rparr>\<rparr>)
   = (Finite (- (11 / 2)), [Call_getpid, Call_proc_pidinfo, Call_gettimeofday])"
    using difference_returned_unclamped
      [of "{''__APPLE__''}" "failing_os\<lparr>apple := working_apple\<lparr>pbi_start_tvsec := 1700000010\<rparr>\<rparr>"]
    by (simp add: target_apple working_apple_def apple_startTime_def usec_in_range_def
        sec_diff_fits_def timeval_lt_def GetTimeSinceProcessStart_def apple_measured
        timeval_elapsed_def eval_double eval_halves)
  from L W T A show ?thesis by (simp only: simp_thms)
qed

text \<open>
  Claim C10 as stated, with a negative result for every current time before the creation
  time, fails on the Windows branch: with a creation time of 133500000000000001 ticks and a
  system time of 133500000000000000 ticks both probes succeed, the current time is one tick
  before the creation time, and the function returns \<open>0.0\<close>, which is not negative.
\<close>

theorem one_tick_back_returns_zero:
  "target {''_WIN32''} = Win32 \<and>
   \<not> creation_probe_failed Win32
     (failing_os\<lparr>win32 :=
        \<lparr>GetProcessTimes_ret = 1,
         creationTime = \<lparr>dwLowDateTime = 3984834561, dwHighDateTime = 31082890\<rparr>,
         systemTime = \<lparr>dwLowDateTime = 3984834560, dwHighDateTime = 31082890\<rparr>\<rparr>\<rparr>) \<and>
   \<not> current_probe_failed Win32
     (failing_os\<lparr>win32 :=
        \<lparr>GetProcessTimes_ret = 1,
         creationTime = \<lparr>dwLowDateTime = 3984834561, dwHighDateTime = 31082890\<rparr>,
         systemTime = \<lparr>dwLowDateTime = 3984834560, dwHighDateTime = 31082890\<rparr>\<rparr>\<rparr>) \<and>
   unat (QuadPart \<lparr>dwLowDateTime = 3984834560, dwHighDateTime = 31082890\<rparr>)
     < unat (QuadPart \<lparr>dwLowDateTime = 3984834561, dwHighDateTime = 31082890\<rparr>) \<and>
   current_before_creation Win32
     (failing_os\<lparr>win32 :=
        \<lparr>GetProcessTimes_ret = 1,
         creationTime = \<lparr>dwLowDateTime = 3984834561, dwHighDateTime = 31082890\<rparr>,
         systemTime = \<lparr>dwLowDateTime = 3984834560, dwHighDateTime = 31082890\<rparr>\<rparr>\<rparr>) \<and>
   fst (GetTimeSinceProcessStart {''_WIN32''}
     (failing_os\<lparr>win32 :=
        \<lparr>GetProcessTimes_ret = 1,
         creationTime = \<lparr>dwLowDateTime = 3984834561, dwHighDateTime = 31082890\<rparr>,
         systemTime = \<lparr>dwLowDateTime = 3984834560, dwHighDateTime = 31082890\<rparr>\<rparr>\<rparr>)) = Finite 0 \<and>
   \<not> double_lt (fst (GetTimeSinceProcessStart {''_WIN32''}
     (failing_os\<lparr>win32 :=
        \<lparr>GetProcessTimes_ret = 1,
         creationTime = \<lparr>dwLowDateTime = 3984834561, dwHighDateTime = 31082890\<rparr>,
         systemTime = \<lparr>dwLowDateTime = 3984834560, dwHighDateTime = 31082890\<rparr>\<rparr>\<rparr>))) (Finite 0) \<and>
   diagnostics (snd (GetTimeSinceProcessStart {''_WIN32''}
     (failing_os\<lparr>win32 :=
        \<lparr>GetProcessTimes_ret = 1,
         creationTime = \<lparr>dwLowDateTime = 3984834561, dwHighDateTime = 31082890\<rparr>,
         systemTime = \<lparr>dwLowDateTime = 3984834560, dwHighDateTime = 31082890\<rparr>\<rparr>\<rparr>))) = []"
  by (simp add: win32_one_tick_back target_win32 QuadPart_value double_lt_def)

end
